theory Spec2Isabelle
  imports Complex_Main
begin

section \<open>The Li-Ion battery energy source (li-ion-battery-model.cc)\<close>

text \<open>
  A shallow embedding of \<^verbatim>\<open>LiIonBatteryModel\<close>. The C++ \<^verbatim>\<open>double\<close> is read as a real
  number: rounding and overflow are outside the model. Member functions take the object
  and return the changed object. Three things have no value in the model and are error
  values: an assertion that fails, a vector read outside its bounds, and the division
  \<^verbatim>\<open>0.0 / 0.0\<close> of \<^verbatim>\<open>RvModelAFunction\<close>. The code does not stop at that division: it goes on
  with a NaN, which no real number stands for, so the model stops there and says nothing
  of the states the code reaches with it.
\<close>

text \<open>
  Modelled from the spec: the simulator's \<^verbatim>\<open>Time\<close> is not among the sources; the spec has
  time stamps and durations that \<^verbatim>\<open>GetSeconds\<close> reads in seconds. A time is a real number of
  seconds here, so \<^verbatim>\<open>Seconds\<close> and \<^verbatim>\<open>GetSeconds\<close> are the identity.
\<close>

type_synonym Time = real

definition Seconds :: "real \<Rightarrow> Time" where
  "Seconds x = x"

definition GetSeconds :: "Time \<Rightarrow> real" where
  "GetSeconds t = t"

datatype error = AssertFailed | OutOfRange | NotANumber

text \<open>
  Modelled from the spec: the scheduler's event handle and the base class's
  \<^verbatim>\<open>NotifyEnergyDrained\<close> are not among the sources. \<open>m_energyUpdateEvent\<close> is the spec's
  handle of the next scheduled recomputation: the time it is due, or \<open>None\<close> when nothing
  is pending. \<open>drainedNotifications\<close> is not a member of the class: it counts the
  notifications of depletion delivered to the registered device energy models. All other
  fields are the members of the class.
\<close>

record LiIonBatteryModel =
  m_initialEnergyJ :: real
  m_remainingEnergyJ :: real
  m_drainedCapacity :: real
  m_supplyVoltageV :: real
  m_lowBatteryTh :: real
  m_energyUpdateEvent :: "Time option"
  m_lastUpdateTime :: Time
  m_energyUpdateInterval :: Time
  m_eFull :: real
  m_eNom :: real
  m_eExp :: real
  m_internalResistance :: real
  m_qRated :: real
  m_qNom :: real
  m_qExp :: real
  m_typCurrent :: real
  m_minVoltTh :: real
  m_load :: "real list"
  m_timeStamps :: "Time list"
  m_lastSampleTime :: Time
  m_previousLoad :: real
  m_alpha :: real
  m_beta :: real
  m_lastUpdateAlpha :: real
  drainedNotifications :: nat

text \<open>
  Modelled from the spec: the clock and scheduler (\<^verbatim>\<open>Simulator\<close>) and the registered device
  energy models are not among the sources. What a member function reads from them is the
  present time, whether the clock has finished, and the present current draw of each
  registered device.
\<close>

record environment =
  sim_Now :: Time
  sim_IsFinished :: bool
  deviceCurrentsA :: "real list"

text \<open>
  Modelled from the spec: \<^verbatim>\<open>EnergySource::CalculateTotalCurrent\<close> belongs to the base
  class, which is not among the sources; the spec says that the energy source sums the
  draws of all registered devices.
\<close>

definition CalculateTotalCurrent :: "environment \<Rightarrow> real" where
  "CalculateTotalCurrent env = sum_list (deviceCurrentsA env)"

text \<open>
  The constructor (lines 125-134) followed by the attribute defaults of \<^verbatim>\<open>GetTypeId\<close>
  (lines 44-120), as object creation applies them; \<open>now\<close> is \<^verbatim>\<open>Simulator::Now ()\<close> at
  construction.
\<close>

definition CreateObject :: "Time \<Rightarrow> LiIonBatteryModel" where
  "CreateObject now =
     \<lparr> m_initialEnergyJ = 31752,
       m_remainingEnergyJ = 31752,
       m_drainedCapacity = 0,
       m_supplyVoltageV = 405 / 100,
       m_lowBatteryTh = 1 / 10,
       m_energyUpdateEvent = None,
       m_lastUpdateTime = Seconds 0,
       m_energyUpdateInterval = Seconds 1,
       m_eFull = 405 / 100,
       m_eNom = 36 / 10,
       m_eExp = 36 / 10,
       m_internalResistance = 83 / 1000,
       m_qRated = 245 / 100,
       m_qNom = 11 / 10,
       m_qExp = 12 / 10,
       m_typCurrent = 233 / 100,
       m_minVoltTh = 33 / 10,
       m_load = [],
       m_timeStamps = [now],
       m_lastSampleTime = now,
       m_previousLoad = - 1,
       m_alpha = 35220,
       m_beta = 637 / 1000,
       m_lastUpdateAlpha = 0,
       drainedNotifications = 0 \<rparr>"

definition SetInitialEnergy :: "LiIonBatteryModel \<Rightarrow> real \<Rightarrow> error + LiIonBatteryModel" where
  "SetInitialEnergy s initialEnergyJ =
     (if \<not> initialEnergyJ \<ge> 0 then Inl AssertFailed
      else Inr (s\<lparr>m_initialEnergyJ := initialEnergyJ, m_remainingEnergyJ := initialEnergyJ\<rparr>))"

definition SetBeta :: "LiIonBatteryModel \<Rightarrow> real \<Rightarrow> error + LiIonBatteryModel" where
  "SetBeta s beta = (if \<not> beta \<ge> 0 then Inl AssertFailed else Inr (s\<lparr>m_beta := beta\<rparr>))"

subsection \<open>The discharge transform\<close>

text \<open>
  \<^verbatim>\<open>RvModelAFunction\<close> (lines 402-419); the loop over \<open>m = 1, ..., 10\<close> is a fold. Where
  \<open>square\<close> is 0 (that is, where \<open>beta\<close> is 0, which \<^verbatim>\<open>SetBeta\<close> accepts) both exponentials
  are 1 and line 416 divides 0.0 by 0.0: the sum, and with it the result, is not a number.
\<close>

definition RvModelAFunction :: "Time \<Rightarrow> Time \<Rightarrow> Time \<Rightarrow> real \<Rightarrow> error + real" where
  "RvModelAFunction t sk sk_1 beta =
     (let firstDelta = (GetSeconds t - GetSeconds sk) / 60;
          secondDelta = (GetSeconds t - GetSeconds sk_1) / 60;
          delta = (GetSeconds sk - GetSeconds sk_1) / 60;
          sum = fold (\<lambda>m acc.
                   case acc of
                     Inl e \<Rightarrow> Inl e
                   | Inr sum_so_far \<Rightarrow>
                       let square = beta * beta * real m * real m
                       in if square = 0 then Inl NotANumber
                          else Inr (sum_so_far + (exp (- square * firstDelta) - exp (- square * secondDelta)) / square))
                 [1..<11] (Inr 0)
      in case sum of Inl e \<Rightarrow> Inl e | Inr sum_so_far \<Rightarrow> Inr (delta + 2 * sum_so_far))"

text \<open>
  The first half of \<^verbatim>\<open>Discharge\<close> (lines 361-377): the load history recorder. Writing
  the last element of an empty \<open>m_timeStamps\<close> is outside the vector.
\<close>

definition Discharge_record :: "LiIonBatteryModel \<Rightarrow> real \<Rightarrow> Time \<Rightarrow> error + LiIonBatteryModel" where
  "Discharge_record s load t =
     (if load \<noteq> m_previousLoad s then
        (if m_timeStamps s = [] then Inl OutOfRange
         else Inr (s\<lparr> m_load := m_load s @ [load],
                      m_previousLoad := load,
                      m_timeStamps :=
                        (m_timeStamps s)[length (m_timeStamps s) - 1 := m_lastSampleTime s] @ [t],
                      m_lastSampleTime := t \<rparr>))
      else
        Inr (s\<lparr> m_timeStamps :=
                   (if m_timeStamps s \<noteq> []
                    then (m_timeStamps s)[length (m_timeStamps s) - 1 := t]
                    else m_timeStamps s),
                 m_lastSampleTime := t \<rparr>))"

text \<open>
  The second half of \<^verbatim>\<open>Discharge\<close> (lines 379-399), on the recorded history. Once the
  assertion has passed, every index of the loop is inside both vectors; the branch for
  a single time stamp reads \<open>m_load[0]\<close>. A product or a sum with a result of
  \<^verbatim>\<open>RvModelAFunction\<close> that is not a number is not a number either.
\<close>

definition Discharge_alpha :: "LiIonBatteryModel \<Rightarrow> Time \<Rightarrow> error + real" where
  "Discharge_alpha s t =
     (if \<not> (length (m_load s) + 1 = length (m_timeStamps s)) then Inl AssertFailed
      else if length (m_timeStamps s) = 1 then
        (case m_load s of
           [] \<Rightarrow> Inl OutOfRange
         | l0 # _ \<Rightarrow>
             (case RvModelAFunction t t (Seconds 0) (m_beta s) of
                Inl e \<Rightarrow> Inl e
              | Inr a \<Rightarrow> Inr (l0 * a)))
      else
        fold (\<lambda>i acc.
                case acc of
                  Inl e \<Rightarrow> Inl e
                | Inr calculatedAlpha \<Rightarrow>
                    (case RvModelAFunction t (m_timeStamps s ! i) (m_timeStamps s ! (i - 1)) (m_beta s) of
                       Inl e \<Rightarrow> Inl e
                     | Inr a \<Rightarrow> Inr (calculatedAlpha + m_load s ! (i - 1) * a)))
             [1..<length (m_timeStamps s)] (Inr 0))"

definition Discharge :: "LiIonBatteryModel \<Rightarrow> real \<Rightarrow> Time \<Rightarrow> error + (real \<times> LiIonBatteryModel)" where
  "Discharge s load t =
     (case Discharge_record s load t of
        Inl e \<Rightarrow> Inl e
      | Inr s1 \<Rightarrow>
          (case Discharge_alpha s1 t of
             Inl e \<Rightarrow> Inl e
           | Inr calculatedAlpha \<Rightarrow> Inr (calculatedAlpha, s1)))"

subsection \<open>The voltage model\<close>

text \<open>\<^verbatim>\<open>GetVoltage\<close> (lines 328-354).\<close>

definition GetVoltage :: "LiIonBatteryModel \<Rightarrow> real \<Rightarrow> real" where
  "GetVoltage s i =
     (let it = m_drainedCapacity s;
          A = m_eFull s - m_eExp s;
          B = 3 / m_qExp s;
          K = \<bar>(m_eFull s - m_eNom s + A * (exp (- B * m_qNom s) - 1))
                * (m_qRated s - m_qNom s) / m_qNom s\<bar>;
          E0 = m_eFull s + K + m_internalResistance s * m_typCurrent s - A;
          E = E0 - K * m_qRated s / (m_qRated s - it) + A * exp (- B * it);
          V = E - m_internalResistance s * i
      in V)"

subsection \<open>The energy source\<close>

text \<open>
  \<^verbatim>\<open>HandleEnergyDrainedEvent\<close> (lines 290-297) calls \<^verbatim>\<open>NotifyEnergyDrained\<close> and does nothing
  else; the call is counted.
\<close>

definition HandleEnergyDrainedEvent :: "LiIonBatteryModel \<Rightarrow> LiIonBatteryModel" where
  "HandleEnergyDrainedEvent s = s\<lparr>drainedNotifications := drainedNotifications s + 1\<rparr>"

text \<open>\<^verbatim>\<open>CalculateRemainingEnergy\<close> (lines 300-326).\<close>

definition CalculateRemainingEnergy :: "environment \<Rightarrow> LiIonBatteryModel \<Rightarrow> error + LiIonBatteryModel" where
  "CalculateRemainingEnergy env s =
     (let totalCurrentA = CalculateTotalCurrent env;
          duration = sim_Now env - m_lastUpdateTime s
      in case Discharge s (totalCurrentA * 1000) (sim_Now env) of
           Inl e \<Rightarrow> Inl e
         | Inr (calculatedAlpha, s1) \<Rightarrow>
             if \<not> GetSeconds duration \<ge> 0 then Inl AssertFailed
             else
               let energyToDecreaseJ = (calculatedAlpha - m_lastUpdateAlpha s1) * m_supplyVoltageV s1;
                   s2 = (if m_remainingEnergyJ s1 < energyToDecreaseJ
                         then s1\<lparr>m_remainingEnergyJ := 0\<rparr>
                         else s1\<lparr>m_remainingEnergyJ := m_remainingEnergyJ s1 - energyToDecreaseJ,
                                 m_drainedCapacity := calculatedAlpha / 3600\<rparr>);
                   s3 = s2\<lparr>m_supplyVoltageV := GetVoltage s2 totalCurrentA\<rparr>
               in Inr (s3\<lparr>m_lastUpdateAlpha := calculatedAlpha\<rparr>))"

text \<open>
  \<^verbatim>\<open>UpdateEnergySource\<close> (lines 242-270). Cancelling the pending event clears the handle;
  scheduling sets it to the present time plus the update interval.
\<close>

definition UpdateEnergySource :: "environment \<Rightarrow> LiIonBatteryModel \<Rightarrow> error + LiIonBatteryModel" where
  "UpdateEnergySource env s =
     (if sim_IsFinished env then Inr s
      else
        case CalculateRemainingEnergy env (s\<lparr>m_energyUpdateEvent := None\<rparr>) of
          Inl e \<Rightarrow> Inl e
        | Inr s1 \<Rightarrow>
            let s2 = s1\<lparr>m_lastUpdateTime := sim_Now env\<rparr>
            in if m_remainingEnergyJ s2 \<le> m_lowBatteryTh s2 * m_initialEnergyJ s2
               then Inr (HandleEnergyDrainedEvent s2)
               else Inr (s2\<lparr>m_energyUpdateEvent := Some (sim_Now env + m_energyUpdateInterval s2)\<rparr>))"

text \<open>\<^verbatim>\<open>GetRemainingEnergy\<close> (lines 202-209) and \<^verbatim>\<open>GetEnergyFraction\<close> (lines 211-218).\<close>

definition GetRemainingEnergy :: "environment \<Rightarrow> LiIonBatteryModel \<Rightarrow> error + (real \<times> LiIonBatteryModel)" where
  "GetRemainingEnergy env s =
     (case UpdateEnergySource env s of
        Inl e \<Rightarrow> Inl e
      | Inr s1 \<Rightarrow> Inr (m_remainingEnergyJ s1, s1))"


text \<open>\<^verbatim>\<open>DecreaseRemainingEnergy\<close> (lines 220-232) and \<^verbatim>\<open>IncreaseRemainingEnergy\<close> (lines 234-240).\<close>

definition DecreaseRemainingEnergy :: "LiIonBatteryModel \<Rightarrow> real \<Rightarrow> error + LiIonBatteryModel" where
  "DecreaseRemainingEnergy s energyJ =
     (if \<not> energyJ \<ge> 0 then Inl AssertFailed
      else
        let s1 = s\<lparr>m_remainingEnergyJ := m_remainingEnergyJ s - energyJ\<rparr>
        in if m_supplyVoltageV s1 \<le> m_minVoltTh s1
           then Inr (HandleEnergyDrainedEvent s1)
           else Inr s1)"


section \<open>The specification\<close>

text \<open>
  The spec's segment contribution \<open>A(t, s\<^sub>k, s\<^sub>k\<^sub>-\<^sub>1, \<beta>)\<close>, in its words: the deltas are in
  minutes and the series has the ten terms \<open>m = 1, ..., 10\<close>.
\<close>

definition rv_A_spec :: "real \<Rightarrow> real \<Rightarrow> real \<Rightarrow> real \<Rightarrow> real" where
  "rv_A_spec t sk sk_1 beta =
     (let Delta1 = (t - sk) / 60;
          Delta2 = (t - sk_1) / 60;
          delta = (sk - sk_1) / 60
      in delta + 2 * (\<Sum>m = 1..10::nat.
                        (exp (- (beta\<^sup>2 * (real m)\<^sup>2) * Delta1) - exp (- (beta\<^sup>2 * (real m)\<^sup>2) * Delta2))
                        / (beta\<^sup>2 * (real m)\<^sup>2)))"

text \<open>
  The spec's total alpha: the sum over the recorded segments of the segment's load times its
  contribution. \<open>L\<close> are the loads and \<open>S\<close> the segment boundaries.
\<close>

definition alpha_spec :: "real list \<Rightarrow> real list \<Rightarrow> real \<Rightarrow> real \<Rightarrow> real" where
  "alpha_spec L S t beta = (\<Sum>k = 1..<length S. L ! (k - 1) * rv_A_spec t (S ! k) (S ! (k - 1)) beta)"

text \<open>
  The spec's empirical voltage curve, from the cell's parameters, the drained capacity \<open>it\<close>
  and the present current \<open>i\<close>.
\<close>

definition voltage_spec ::
  "real \<Rightarrow> real \<Rightarrow> real \<Rightarrow> real \<Rightarrow> real \<Rightarrow> real \<Rightarrow> real \<Rightarrow> real \<Rightarrow> real \<Rightarrow> real \<Rightarrow> real" where
  "voltage_spec E_full E_nom E_exp Q_rated Q_nom Q_exp R_internal I_typ it i =
     (let A = E_full - E_exp;
          B = 3 / Q_exp;
          K = \<bar>(E_full - E_nom + A * (exp (- B * Q_nom) - 1)) * (Q_rated - Q_nom) / Q_nom\<bar>;
          E0 = E_full + K + R_internal * I_typ - A;
          E = E0 - K * Q_rated / (Q_rated - it) + A * exp (- B * it)
      in E - R_internal * i)"

text \<open>
  The contribution of a unit load that has been drawn for \<open>u\<close> seconds and is still drawn.
  The spec's \<open>A(t, s\<^sub>k, s\<^sub>k\<^sub>-\<^sub>1, \<beta>)\<close> is the difference of two of them, \<open>u = t - s\<^sub>k\<^sub>-\<^sub>1\<close> and
  \<open>u = t - s\<^sub>k\<close> (\<open>rv_A_spec_rv_F\<close>). With it the total alpha is a sum over the steps of the
  load: each step from the load before (\<open>prev\<close>, 0 before the first) to the next load, times
  the contribution since the step's time stamp.
\<close>

definition rv_F :: "real \<Rightarrow> real \<Rightarrow> real" where
  "rv_F beta u =
     u / 60 + 2 * (\<Sum>m = 1..10::nat. (1 - exp (- (beta\<^sup>2 * (real m)\<^sup>2) * (u / 60))) / (beta\<^sup>2 * (real m)\<^sup>2))"


text \<open>
  The invariant of the load history recorder: one more time stamp than loads, time stamps
  in non-decreasing order, the last (open) time stamp equal to \<open>m_lastSampleTime\<close>, and
  \<open>m_previousLoad\<close> the last recorded load (-1, the constructor's value, while no load is
  recorded). The constructor establishes it and every call of \<^verbatim>\<open>Discharge\<close> restores it.
\<close>

definition load_history_inv :: "LiIonBatteryModel \<Rightarrow> bool" where
  "load_history_inv s =
     (length (m_load s) + 1 = length (m_timeStamps s)
      \<and> sorted (m_timeStamps s)
      \<and> last (m_timeStamps s) = m_lastSampleTime s
      \<and> m_previousLoad s = (if m_load s = [] then - 1 else last (m_load s)))"


text \<open>
  Whether \<^verbatim>\<open>CalculateRemainingEnergy\<close> takes the branch
  \<^verbatim>\<open>m_remainingEnergyJ < energyToDecreaseJ\<close> in the given environment.
\<close>

definition takesClampBranch :: "environment \<Rightarrow> LiIonBatteryModel \<Rightarrow> bool" where
  "takesClampBranch env s =
     (case Discharge s (CalculateTotalCurrent env * 1000) (sim_Now env) of
        Inl e \<Rightarrow> False
      | Inr (calculatedAlpha, s1) \<Rightarrow>
          m_remainingEnergyJ s1 < (calculatedAlpha - m_lastUpdateAlpha s1) * m_supplyVoltageV s1)"

text \<open>
  Consecutive recomputations, one per environment, stopping at the first error; and the
  runs in which every one of them takes the clamp branch.
\<close>

fun CalculateRemainingEnergy_seq :: "environment list \<Rightarrow> LiIonBatteryModel \<Rightarrow> error + LiIonBatteryModel" where
  "CalculateRemainingEnergy_seq [] s = Inr s"
| "CalculateRemainingEnergy_seq (env # envs) s =
     (case CalculateRemainingEnergy env s of
        Inl e \<Rightarrow> Inl e
      | Inr s' \<Rightarrow> CalculateRemainingEnergy_seq envs s')"

fun clampedThroughout :: "environment list \<Rightarrow> LiIonBatteryModel \<Rightarrow> bool" where
  "clampedThroughout [] s = True"
| "clampedThroughout (env # envs) s =
     (takesClampBranch env s \<and>
      (case CalculateRemainingEnergy env s of
         Inl e \<Rightarrow> False
       | Inr s' \<Rightarrow> clampedThroughout envs s'))"

text \<open>
  Environments with one registered device drawing \<open>i\<close> amperes at time \<open>t\<close>: the clock
  running, and the clock finished.
\<close>

definition running :: "Time \<Rightarrow> real \<Rightarrow> environment" where
  "running t i = \<lparr>sim_Now = t, sim_IsFinished = False, deviceCurrentsA = [i]\<rparr>"

definition stopped :: "Time \<Rightarrow> real \<Rightarrow> environment" where
  "stopped t i = \<lparr>sim_Now = t, sim_IsFinished = True, deviceCurrentsA = [i]\<rparr>"

section \<open>Lemmas about the model\<close>

subsection \<open>Loops as sums\<close>

text \<open>
  The accumulating loops of the source are folds over an index range; such a fold is the
  sum of the terms it adds, as long as every term has a value, and the error of the first
  term if that one has none. So for \<open>beta \<noteq> 0\<close> \<^verbatim>\<open>RvModelAFunction\<close> is the spec's \<open>A\<close> and the
  loop over the segments is the spec's sum, and for \<open>beta = 0\<close> neither has a value.
\<close>

lemma fold_Inl:
  "fold (\<lambda>m acc. case acc of Inl e \<Rightarrow> Inl e | Inr a \<Rightarrow> h m a) xs (Inl e) = Inl e"
  by (induction xs) simp_all

lemma fold_add_sum:
  assumes "\<And>m a. a0 \<le> m \<Longrightarrow> m < b \<Longrightarrow> h m a = Inr (a + f m)"
  shows "fold (\<lambda>m acc. case acc of Inl e \<Rightarrow> Inl e | Inr a \<Rightarrow> h m a) [a0..<b] (Inr (acc0::real))
         = Inr (acc0 + (\<Sum>m = a0..<b. f m))"
  using assms
proof (induction b arbitrary: acc0)
  case 0
  show ?case by simp
next
  case (Suc b)
  show ?case
  proof (cases "a0 \<le> b")
    case True
    have "fold (\<lambda>m acc. case acc of Inl e \<Rightarrow> Inl e | Inr a \<Rightarrow> h m a) [a0..<b] (Inr acc0)
         = Inr (acc0 + (\<Sum>m = a0..<b. f m))"
      by (rule Suc.IH) (simp add: Suc.prems)
    then show ?thesis using True Suc.prems[of b] by (simp add: algebra_simps)
  next
    case False
    then show ?thesis by simp
  qed
qed

lemma fold_add_sum0:
  assumes "\<And>m a. a0 \<le> m \<Longrightarrow> m < b \<Longrightarrow> h m a = Inr (a + f m)"
  shows "fold (\<lambda>m acc. case acc of Inl e \<Rightarrow> Inl e | Inr a \<Rightarrow> h m a) [a0..<b] (Inr (0::real))
         = Inr (\<Sum>m = a0..<b. f m)"
  using fold_add_sum[of a0 b h f 0, OF assms] by simp

lemma fold_first_fails:
  assumes "a0 < b" "\<And>a. h a0 a = Inl e"
  shows "fold (\<lambda>m acc. case acc of Inl e \<Rightarrow> Inl e | Inr a \<Rightarrow> h m a) [a0..<b] (Inr acc0) = Inl e"
  using assms by (simp add: upt_conv_Cons fold_Inl)

lemma RvModelAFunction_spec:
  assumes "beta \<noteq> 0"
  shows "RvModelAFunction t sk sk_1 beta = Inr (rv_A_spec t sk sk_1 beta)"
proof -
  have eq: "{1..<11::nat} = {1..10}" "{Suc 0..<11} = {Suc 0..10}" by auto
  define h where "h = (\<lambda>m sum_so_far.
       if beta * beta * real m * real m = 0 then Inl NotANumber
       else Inr (sum_so_far + (exp (- (beta * beta * real m * real m) * ((t - sk) / 60))
                               - exp (- (beta * beta * real m * real m) * ((t - sk_1) / 60)))
                              / (beta * beta * real m * real m)))"
  have F: "fold (\<lambda>m acc. case acc of Inl e \<Rightarrow> Inl e | Inr a \<Rightarrow> h m a) [1..<11] (Inr 0)
        = Inr (\<Sum>m = 1..<11::nat.
                 (exp (- (beta * beta * real m * real m) * ((t - sk) / 60))
                  - exp (- (beta * beta * real m * real m) * ((t - sk_1) / 60)))
                 / (beta * beta * real m * real m))"
    by (rule fold_add_sum0) (use assms in \<open>simp add: h_def\<close>)
  have "RvModelAFunction t sk sk_1 beta =
          (case fold (\<lambda>m acc. case acc of Inl e \<Rightarrow> Inl e | Inr a \<Rightarrow> h m a) [1..<11] (Inr 0) of
             Inl e \<Rightarrow> Inl e
           | Inr sum_so_far \<Rightarrow> Inr ((sk - sk_1) / 60 + 2 * sum_so_far))"
    unfolding RvModelAFunction_def Let_def GetSeconds_def h_def ..
  also have "\<dots> = Inr (rv_A_spec t sk sk_1 beta)"
    unfolding F by (simp add: rv_A_spec_def eq power2_eq_square mult.assoc)
  finally show ?thesis .
qed

lemma RvModelAFunction_zero: "RvModelAFunction t sk sk_1 0 = Inl NotANumber"
proof -
  define h where "h = (\<lambda>m sum_so_far.
       if 0 * 0 * real m * real m = 0 then Inl NotANumber
       else Inr (sum_so_far + (exp (- (0 * 0 * real m * real m) * ((t - sk) / 60))
                               - exp (- (0 * 0 * real m * real m) * ((t - sk_1) / 60)))
                              / (0 * 0 * real m * real m)))"
  have F: "fold (\<lambda>m acc. case acc of Inl e \<Rightarrow> Inl e | Inr a \<Rightarrow> h m a) [1..<11] (Inr 0)
        = Inl NotANumber"
    by (rule fold_first_fails) (simp_all add: h_def)
  have "RvModelAFunction t sk sk_1 0 =
          (case fold (\<lambda>m acc. case acc of Inl e \<Rightarrow> Inl e | Inr a \<Rightarrow> h m a) [1..<11] (Inr 0) of
             Inl e \<Rightarrow> Inl e
           | Inr sum_so_far \<Rightarrow> Inr ((sk - sk_1) / 60 + 2 * sum_so_far))"
    unfolding RvModelAFunction_def Let_def GetSeconds_def h_def ..
  then show ?thesis unfolding F by simp
qed

lemma Discharge_alpha_loop:
  assumes "length (m_load s) + 1 = length (m_timeStamps s)" "length (m_timeStamps s) \<noteq> 1"
  shows "Discharge_alpha s t =
           fold (\<lambda>i acc. case acc of Inl e \<Rightarrow> Inl e
                   | Inr a \<Rightarrow>
                       (case RvModelAFunction t (m_timeStamps s ! i) (m_timeStamps s ! (i - 1)) (m_beta s) of
                          Inl e \<Rightarrow> Inl e
                        | Inr v \<Rightarrow> Inr (a + m_load s ! (i - 1) * v)))
             [1..<length (m_timeStamps s)] (Inr 0)"
  unfolding Discharge_alpha_def using assms by (simp only: simp_thms if_False if_True)

lemma Discharge_alpha_sum:
  assumes "length (m_load s) + 1 = length (m_timeStamps s)" "length (m_timeStamps s) \<noteq> 1"
    and "m_beta s \<noteq> 0"
  shows "Discharge_alpha s t = Inr (alpha_spec (m_load s) (m_timeStamps s) t (m_beta s))"
  unfolding Discharge_alpha_loop[OF assms(1,2)] alpha_spec_def
  by (rule fold_add_sum0) (simp add: RvModelAFunction_spec[OF assms(3)])

lemma Discharge_alpha_beta:
  assumes "Discharge_alpha s t = Inr a"
  shows "m_beta s \<noteq> 0"
proof
  assume z: "m_beta s = 0"
  have len: "length (m_load s) + 1 = length (m_timeStamps s)"
    using assms by (auto simp: Discharge_alpha_def split: if_splits)
  show False
  proof (cases "length (m_timeStamps s) = 1")
    case True
    then show ?thesis
      using assms z len by (auto simp: Discharge_alpha_def RvModelAFunction_zero split: list.splits)
  next
    case False
    then have lt: "1 < length (m_timeStamps s)" using len by simp
    have "Discharge_alpha s t = Inl NotANumber"
      unfolding Discharge_alpha_loop[OF len False]
      by (rule fold_first_fails[OF lt]) (simp add: z RvModelAFunction_zero)
    then show ?thesis using assms by simp
  qed
qed

lemma alpha_spec_one: "alpha_spec [l] [a, b] t beta = l * rv_A_spec t b a beta"
  by (simp add: alpha_spec_def)


lemma rv_A_spec_empty_segment [simp]: "rv_A_spec t sk sk beta = 0"
  by (simp add: rv_A_spec_def)

subsection \<open>The load history recorder\<close>

text \<open>
  Overwriting the last element of a vector, and what it does to a sorted one.
\<close>

lemma update_last_conv: "xs \<noteq> [] \<Longrightarrow> xs[length xs - 1 := v] = butlast xs @ [v]"
  by (induction xs rule: rev_induct) (simp_all add: list_update_append)

lemma update_last_conv': "xs \<noteq> [] \<Longrightarrow> xs[length xs - Suc 0 := v] = butlast xs @ [v]"
  using update_last_conv[of xs v] by simp

lemma update_last_same: "xs \<noteq> [] \<Longrightarrow> last xs = v \<Longrightarrow> xs[length xs - 1 := v] = xs"
  using append_butlast_last_id[of xs] by (simp add: update_last_conv')

lemma sorted_le_last: "sorted xs \<Longrightarrow> x \<in> set xs \<Longrightarrow> x \<le> last (xs::real list)"
  by (induction xs rule: rev_induct) (auto simp: sorted_append)

lemma sorted_update_last:
  assumes "sorted (xs::real list)" "xs \<noteq> []" "last xs \<le> v"
  shows "sorted (xs[length xs - 1 := v])"
proof -
  have "\<forall>x\<in>set (butlast xs). x \<le> v"
    using assms sorted_le_last[OF assms(1)] by (meson in_set_butlastD order_trans)
  moreover have "sorted (butlast xs)" using assms(1) by (simp add: sorted_butlast)
  ultimately show ?thesis using assms(2) by (simp add: update_last_conv' sorted_append)
qed

lemma sorted_snoc_last:
  assumes "sorted (xs::real list)" "xs \<noteq> []" "last xs \<le> v"
  shows "sorted (xs @ [v])"
  using assms sorted_le_last[OF assms(1)] by (fastforce simp: sorted_append)

text \<open>
  The two branches of the recorder under the invariant, and the invariant after them.
\<close>

lemma CreateObject_inv: "load_history_inv (CreateObject now)"
  by (simp add: load_history_inv_def CreateObject_def)

lemma Discharge_record_same:
  assumes "load_history_inv s" "load = m_previousLoad s"
  shows "Discharge_record s load t =
           Inr (s\<lparr>m_timeStamps := (m_timeStamps s)[length (m_timeStamps s) - 1 := t],
                  m_lastSampleTime := t\<rparr>)"
proof -
  have "m_timeStamps s \<noteq> []" using assms(1) by (auto simp: load_history_inv_def)
  then show ?thesis using assms(2) by (simp add: Discharge_record_def)
qed

lemma Discharge_record_changed:
  assumes "load_history_inv s" "load \<noteq> m_previousLoad s"
  shows "Discharge_record s load t =
           Inr (s\<lparr>m_load := m_load s @ [load], m_previousLoad := load,
                  m_timeStamps := m_timeStamps s @ [t], m_lastSampleTime := t\<rparr>)"
proof -
  have ne: "m_timeStamps s \<noteq> []" using assms(1) by (auto simp: load_history_inv_def)
  have "(m_timeStamps s)[length (m_timeStamps s) - 1 := m_lastSampleTime s] = m_timeStamps s"
    using ne assms(1) update_last_same[of "m_timeStamps s" "m_lastSampleTime s"]
    by (simp add: load_history_inv_def)
  then show ?thesis using ne assms(2) by (simp add: Discharge_record_def)
qed

lemma Discharge_record_inv:
  assumes "load_history_inv s" "m_lastSampleTime s \<le> t" "Discharge_record s load t = Inr s'"
  shows "load_history_inv s'"
proof (cases "load = m_previousLoad s")
  case True
  have ne: "m_timeStamps s \<noteq> []" using assms(1) by (auto simp: load_history_inv_def)
  have so: "sorted ((m_timeStamps s)[length (m_timeStamps s) - 1 := t])"
    using assms(1,2) ne by (intro sorted_update_last) (simp_all add: load_history_inv_def)
  have la: "last ((m_timeStamps s)[length (m_timeStamps s) - 1 := t]) = t"
    using ne by (simp add: update_last_conv')
  show ?thesis
    using assms(3) Discharge_record_same[OF assms(1) True, of t] assms(1) so la
    by (auto simp: load_history_inv_def)
next
  case False
  have ne: "m_timeStamps s \<noteq> []" using assms(1) by (auto simp: load_history_inv_def)
  have so: "sorted (m_timeStamps s @ [t])"
    using assms(1,2) ne by (intro sorted_snoc_last) (simp_all add: load_history_inv_def)
  show ?thesis
    using assms(3) Discharge_record_changed[OF assms(1) False, of t] assms(1) so
    by (auto simp: load_history_inv_def)
qed

lemma Discharge_record_shape:
  assumes "Discharge_record s load t = Inr s1"
  shows "\<exists>ld ts. s1 = s\<lparr>m_load := ld, m_previousLoad := load, m_timeStamps := ts, m_lastSampleTime := t\<rparr>"
proof (cases "load = m_previousLoad s")
  case True
  then have "s1 = s\<lparr>m_load := m_load s, m_previousLoad := load,
                     m_timeStamps := (if m_timeStamps s \<noteq> []
                    then (m_timeStamps s)[length (m_timeStamps s) - 1 := t]
                    else m_timeStamps s), m_lastSampleTime := t\<rparr>"
    using assms by (simp add: Discharge_record_def)
  then show ?thesis by blast
next
  case False
  then have "s1 = s\<lparr>m_load := m_load s @ [load], m_previousLoad := load,
                     m_timeStamps := (m_timeStamps s)[length (m_timeStamps s) - 1 := m_lastSampleTime s] @ [t],
                     m_lastSampleTime := t\<rparr>"
    using assms by (auto simp: Discharge_record_def split: if_splits)
  then show ?thesis by blast
qed


subsection \<open>The discharge transform\<close>

lemma Discharge_state:
  "Discharge s load t = Inr (a, s'') \<Longrightarrow> Discharge_record s load t = Inr s''"
  by (auto simp: Discharge_def split: sum.splits)

lemma Discharge_shape:
  assumes "Discharge s load t = Inr (a, s1)"
  shows "\<exists>ld ts. s1 = s\<lparr>m_load := ld, m_previousLoad := load, m_timeStamps := ts, m_lastSampleTime := t\<rparr>"
  using Discharge_record_shape[OF Discharge_state[OF assms]] .

lemma Discharge_returns:
  assumes "Discharge_record s load t = Inr s'" "length (m_load s') + 1 = length (m_timeStamps s')"
    "length (m_timeStamps s') \<noteq> 1" "m_beta s' \<noteq> 0"
  shows "Discharge s load t = Inr (alpha_spec (m_load s') (m_timeStamps s') t (m_beta s'), s')"
  using assms by (simp add: Discharge_def Discharge_alpha_sum)

lemma Discharge_changed:
  assumes "load_history_inv s" "load \<noteq> m_previousLoad s" "m_beta s \<noteq> 0"
  shows "Discharge s load t =
           Inr (alpha_spec (m_load s @ [load]) (m_timeStamps s @ [t]) t (m_beta s),
                s\<lparr>m_load := m_load s @ [load], m_previousLoad := load,
                  m_timeStamps := m_timeStamps s @ [t], m_lastSampleTime := t\<rparr>)"
proof -
  have "length (m_load s) + 1 = length (m_timeStamps s)"
    using assms(1) by (simp add: load_history_inv_def)
  moreover from this have "m_timeStamps s \<noteq> []" by auto
  ultimately show ?thesis
    using Discharge_returns[OF Discharge_record_changed[OF assms(1,2), of t]] assms(3) by simp
qed

lemma Discharge_same:
  assumes "load_history_inv s" "load = m_previousLoad s" "m_load s \<noteq> []" "m_beta s \<noteq> 0"
  shows "Discharge s load t =
           Inr (alpha_spec (m_load s) ((m_timeStamps s)[length (m_timeStamps s) - 1 := t]) t (m_beta s),
                s\<lparr>m_timeStamps := (m_timeStamps s)[length (m_timeStamps s) - 1 := t],
                  m_lastSampleTime := t\<rparr>)"
proof -
  have "length (m_load s) + 1 = length (m_timeStamps s)"
    using assms(1) by (simp add: load_history_inv_def)
  moreover from this have "length (m_timeStamps s) \<noteq> 1" using assms(3) by auto
  ultimately show ?thesis
    using Discharge_returns[OF Discharge_record_same[OF assms(1,2), of t]] assms(4) by simp
qed





subsection \<open>The voltage curve\<close>

lemma GetVoltage_cong:
  assumes "m_drainedCapacity s = m_drainedCapacity s'" "m_eFull s = m_eFull s'" "m_eExp s = m_eExp s'"
    "m_eNom s = m_eNom s'" "m_qExp s = m_qExp s'" "m_qNom s = m_qNom s'" "m_qRated s = m_qRated s'"
    "m_internalResistance s = m_internalResistance s'" "m_typCurrent s = m_typCurrent s'"
  shows "GetVoltage s i = GetVoltage s' i"
  using assms by (simp add: GetVoltage_def)

lemma GetVoltage_voltage_spec:
  "GetVoltage s i = voltage_spec (m_eFull s) (m_eNom s) (m_eExp s) (m_qRated s) (m_qNom s) (m_qExp s)
                      (m_internalResistance s) (m_typCurrent s) (m_drainedCapacity s) i"
  by (simp only: GetVoltage_def voltage_spec_def Let_def)

lemma GetVoltage_undrained:
  assumes "m_drainedCapacity s = 0" "m_qRated s \<noteq> 0"
  shows "GetVoltage s i =
           m_eFull s + m_internalResistance s * m_typCurrent s - m_internalResistance s * i"
  using assms by (simp add: GetVoltage_def Let_def)

subsection \<open>One recomputation\<close>

text \<open>
  The state \<^verbatim>\<open>CalculateRemainingEnergy\<close> returns, what it needs to return, and the members it
  leaves alone.
\<close>

lemma CalculateRemainingEnergy_eq:
  assumes "Discharge s (CalculateTotalCurrent env * 1000) (sim_Now env) = Inr (alpha, s1)"
    and "m_lastUpdateTime s \<le> sim_Now env"
  shows "CalculateRemainingEnergy env s =
     Inr (if m_remainingEnergyJ s < (alpha - m_lastUpdateAlpha s) * m_supplyVoltageV s
          then s1\<lparr>m_remainingEnergyJ := 0,
                  m_supplyVoltageV := GetVoltage s (CalculateTotalCurrent env),
                  m_lastUpdateAlpha := alpha\<rparr>
          else s1\<lparr>m_remainingEnergyJ := m_remainingEnergyJ s - (alpha - m_lastUpdateAlpha s) * m_supplyVoltageV s,
                  m_drainedCapacity := alpha / 3600,
                  m_supplyVoltageV := GetVoltage (s\<lparr>m_drainedCapacity := alpha / 3600\<rparr>) (CalculateTotalCurrent env),
                  m_lastUpdateAlpha := alpha\<rparr>)"
proof -
  obtain ld ts where s1: "s1 = s\<lparr>m_load := ld, m_previousLoad := CalculateTotalCurrent env * 1000,
      m_timeStamps := ts, m_lastSampleTime := sim_Now env\<rparr>"
    using Discharge_shape[OF assms(1)] by blast
  have v1: "GetVoltage (s1\<lparr>m_remainingEnergyJ := 0\<rparr>) (CalculateTotalCurrent env)
            = GetVoltage s (CalculateTotalCurrent env)"
    by (rule GetVoltage_cong) (simp_all add: s1)
  have v2: "GetVoltage (s1\<lparr>m_remainingEnergyJ := r, m_drainedCapacity := d\<rparr>) (CalculateTotalCurrent env)
            = GetVoltage (s\<lparr>m_drainedCapacity := d\<rparr>) (CalculateTotalCurrent env)" for r d
    by (rule GetVoltage_cong) (simp_all add: s1)
  have f: "m_remainingEnergyJ s1 = m_remainingEnergyJ s" "m_lastUpdateAlpha s1 = m_lastUpdateAlpha s"
    "m_supplyVoltageV s1 = m_supplyVoltageV s"
    by (simp_all add: s1)
  show ?thesis
    unfolding CalculateRemainingEnergy_def Let_def assms(1) GetSeconds_def
    using assms(2) by (simp add: v1 v2 f)
qed

lemma CalculateRemainingEnergy_Inr:
  assumes "CalculateRemainingEnergy env s = Inr s'"
  shows "\<exists>alpha s1. Discharge s (CalculateTotalCurrent env * 1000) (sim_Now env) = Inr (alpha, s1)
            \<and> m_lastUpdateTime s \<le> sim_Now env"
  using assms unfolding CalculateRemainingEnergy_def Let_def GetSeconds_def
  by (auto split: sum.splits if_splits prod.splits)

lemma CalculateRemainingEnergy_frame:
  assumes "CalculateRemainingEnergy env s = Inr s'"
  shows "\<exists>ld ts r d v a. s' = s\<lparr>m_load := ld, m_previousLoad := CalculateTotalCurrent env * 1000,
            m_timeStamps := ts, m_lastSampleTime := sim_Now env, m_remainingEnergyJ := r,
            m_drainedCapacity := d, m_supplyVoltageV := v, m_lastUpdateAlpha := a\<rparr>"
proof -
  obtain alpha s1 where d: "Discharge s (CalculateTotalCurrent env * 1000) (sim_Now env) = Inr (alpha, s1)"
    and t: "m_lastUpdateTime s \<le> sim_Now env"
    using CalculateRemainingEnergy_Inr[OF assms] by blast
  obtain ld ts where s1: "s1 = s\<lparr>m_load := ld, m_previousLoad := CalculateTotalCurrent env * 1000,
      m_timeStamps := ts, m_lastSampleTime := sim_Now env\<rparr>"
    using Discharge_shape[OF d] by blast
  show ?thesis
  proof (cases "m_remainingEnergyJ s < (alpha - m_lastUpdateAlpha s) * m_supplyVoltageV s")
    case True
    then have "s' = s\<lparr>m_load := ld, m_previousLoad := CalculateTotalCurrent env * 1000,
            m_timeStamps := ts, m_lastSampleTime := sim_Now env, m_remainingEnergyJ := 0,
            m_drainedCapacity := m_drainedCapacity s,
            m_supplyVoltageV := GetVoltage s (CalculateTotalCurrent env), m_lastUpdateAlpha := alpha\<rparr>"
      using assms CalculateRemainingEnergy_eq[OF d t] by (simp add: s1)
    then show ?thesis by blast
  next
    case False
    then have "s' = s\<lparr>m_load := ld, m_previousLoad := CalculateTotalCurrent env * 1000,
            m_timeStamps := ts, m_lastSampleTime := sim_Now env,
            m_remainingEnergyJ := m_remainingEnergyJ s - (alpha - m_lastUpdateAlpha s) * m_supplyVoltageV s,
            m_drainedCapacity := alpha / 3600,
            m_supplyVoltageV := GetVoltage (s\<lparr>m_drainedCapacity := alpha / 3600\<rparr>) (CalculateTotalCurrent env),
            m_lastUpdateAlpha := alpha\<rparr>"
      using assms CalculateRemainingEnergy_eq[OF d t] by (simp add: s1)
    then show ?thesis by blast
  qed
qed



lemma takesClampBranch_iff:
  assumes "Discharge s (CalculateTotalCurrent env * 1000) (sim_Now env) = Inr (alpha, s1)"
  shows "takesClampBranch env s
         \<longleftrightarrow> m_remainingEnergyJ s < (alpha - m_lastUpdateAlpha s) * m_supplyVoltageV s"
proof -
  obtain ld ts where s1: "s1 = s\<lparr>m_load := ld, m_previousLoad := CalculateTotalCurrent env * 1000,
      m_timeStamps := ts, m_lastSampleTime := sim_Now env\<rparr>"
    using Discharge_shape[OF assms] by blast
  show ?thesis by (simp add: takesClampBranch_def assms s1)
qed

lemma clamped_step:
  assumes "CalculateRemainingEnergy env s = Inr s'" "takesClampBranch env s"
  shows "m_remainingEnergyJ s' = 0 \<and> m_drainedCapacity s' = m_drainedCapacity s
         \<and> m_supplyVoltageV s' = GetVoltage s (CalculateTotalCurrent env)
         \<and> (\<exists>alpha s1. Discharge s (CalculateTotalCurrent env * 1000) (sim_Now env) = Inr (alpha, s1)
                \<and> m_lastUpdateAlpha s' = alpha)"
proof -
  obtain alpha s1 where d: "Discharge s (CalculateTotalCurrent env * 1000) (sim_Now env) = Inr (alpha, s1)"
    and t: "m_lastUpdateTime s \<le> sim_Now env"
    using CalculateRemainingEnergy_Inr[OF assms(1)] by blast
  obtain ld ts where s1: "s1 = s\<lparr>m_load := ld, m_previousLoad := CalculateTotalCurrent env * 1000,
      m_timeStamps := ts, m_lastSampleTime := sim_Now env\<rparr>"
    using Discharge_shape[OF d] by blast
  have c: "m_remainingEnergyJ s < (alpha - m_lastUpdateAlpha s) * m_supplyVoltageV s"
    using assms(2) takesClampBranch_iff[OF d] by simp
  have "s' = s1\<lparr>m_remainingEnergyJ := 0,
                  m_supplyVoltageV := GetVoltage s (CalculateTotalCurrent env),
                  m_lastUpdateAlpha := alpha\<rparr>"
    using assms(1) CalculateRemainingEnergy_eq[OF d t] c by simp
  then show ?thesis using d by (simp add: s1)
qed

lemma clamped_run:
  assumes "clampedThroughout (env # envs) s" "CalculateRemainingEnergy_seq (env # envs) s = Inr s'"
  shows "m_remainingEnergyJ s' = 0 \<and> m_drainedCapacity s' = m_drainedCapacity s
         \<and> m_supplyVoltageV s' = GetVoltage s (CalculateTotalCurrent (last (env # envs)))"
  using assms
proof (induction envs arbitrary: env s)
  case Nil
  then show ?case using clamped_step[of env s s'] by (auto split: sum.splits)
next
  case (Cons e2 envs)
  from Cons.prems obtain s1 where s1: "CalculateRemainingEnergy env s = Inr s1"
    and c: "takesClampBranch env s"
    and r: "clampedThroughout (e2 # envs) s1" "CalculateRemainingEnergy_seq (e2 # envs) s1 = Inr s'"
    by (auto split: sum.splits)
  have ih: "m_remainingEnergyJ s' = 0 \<and> m_drainedCapacity s' = m_drainedCapacity s1
         \<and> m_supplyVoltageV s' = GetVoltage s1 (CalculateTotalCurrent (last (e2 # envs)))"
    by (rule Cons.IH[OF r])
  have st: "m_drainedCapacity s1 = m_drainedCapacity s" using clamped_step[OF s1 c] by simp
  obtain ld ts r d v a where f: "s1 = s\<lparr>m_load := ld, m_previousLoad := CalculateTotalCurrent env * 1000,
            m_timeStamps := ts, m_lastSampleTime := sim_Now env, m_remainingEnergyJ := r,
            m_drainedCapacity := d, m_supplyVoltageV := v, m_lastUpdateAlpha := a\<rparr>"
    using CalculateRemainingEnergy_frame[OF s1] by blast
  have "GetVoltage s1 i = GetVoltage s i" for i
    by (rule GetVoltage_cong) (use st in \<open>simp_all add: f\<close>)
  then show ?case using ih st by simp
qed

lemma unclamped_step:
  assumes "CalculateRemainingEnergy env s = Inr s'" "\<not> takesClampBranch env s"
  shows "m_drainedCapacity s' = m_lastUpdateAlpha s' / 3600
         \<and> m_supplyVoltageV s' = GetVoltage (s\<lparr>m_drainedCapacity := m_lastUpdateAlpha s' / 3600\<rparr>) (CalculateTotalCurrent env)"
proof -
  obtain alpha s1 where d: "Discharge s (CalculateTotalCurrent env * 1000) (sim_Now env) = Inr (alpha, s1)"
    and t: "m_lastUpdateTime s \<le> sim_Now env"
    using CalculateRemainingEnergy_Inr[OF assms(1)] by blast
  have c: "\<not> m_remainingEnergyJ s < (alpha - m_lastUpdateAlpha s) * m_supplyVoltageV s"
    using assms(2) takesClampBranch_iff[OF d] by simp
  have "s' = s1\<lparr>m_remainingEnergyJ := m_remainingEnergyJ s - (alpha - m_lastUpdateAlpha s) * m_supplyVoltageV s,
                  m_drainedCapacity := alpha / 3600,
                  m_supplyVoltageV := GetVoltage (s\<lparr>m_drainedCapacity := alpha / 3600\<rparr>) (CalculateTotalCurrent env),
                  m_lastUpdateAlpha := alpha\<rparr>"
    using assms(1) CalculateRemainingEnergy_eq[OF d t] c by simp
  then show ?thesis by simp
qed

subsection \<open>One update\<close>

text \<open>
  The state \<^verbatim>\<open>UpdateEnergySource\<close> returns on a running clock, for each of its four paths.
  Under the recorder's invariant, with the clock not behind the object's time stamps and
  at least one load recorded by the end of the call, the update returns.
\<close>

lemma UpdateEnergySource_running:
  assumes "\<not> sim_IsFinished env" "UpdateEnergySource env s = Inr s'"
  shows "\<exists>s1. CalculateRemainingEnergy env (s\<lparr>m_energyUpdateEvent := None\<rparr>) = Inr s1
           \<and> s' = (if m_remainingEnergyJ s1 \<le> m_lowBatteryTh s * m_initialEnergyJ s
                   then s1\<lparr>m_lastUpdateTime := sim_Now env,
                           drainedNotifications := drainedNotifications s + 1\<rparr>
                   else s1\<lparr>m_lastUpdateTime := sim_Now env,
                           m_energyUpdateEvent := Some (sim_Now env + m_energyUpdateInterval s)\<rparr>)
           \<and> m_energyUpdateEvent s1 = None \<and> drainedNotifications s1 = drainedNotifications s"
proof -
  obtain s1 where c: "CalculateRemainingEnergy env (s\<lparr>m_energyUpdateEvent := None\<rparr>) = Inr s1"
    using assms by (auto simp: UpdateEnergySource_def split: sum.splits)
  obtain ld ts r d v a where f: "s1 = s\<lparr>m_energyUpdateEvent := None, m_load := ld,
            m_previousLoad := CalculateTotalCurrent env * 1000,
            m_timeStamps := ts, m_lastSampleTime := sim_Now env, m_remainingEnergyJ := r,
            m_drainedCapacity := d, m_supplyVoltageV := v, m_lastUpdateAlpha := a\<rparr>"
    using CalculateRemainingEnergy_frame[OF c] by blast
  have p: "m_lowBatteryTh s1 = m_lowBatteryTh s" "m_initialEnergyJ s1 = m_initialEnergyJ s"
    "m_energyUpdateInterval s1 = m_energyUpdateInterval s" "m_energyUpdateEvent s1 = None"
    "drainedNotifications s1 = drainedNotifications s"
    by (simp_all add: f)
  have "s' = (if m_remainingEnergyJ s1 \<le> m_lowBatteryTh s * m_initialEnergyJ s
                   then s1\<lparr>m_lastUpdateTime := sim_Now env,
                           drainedNotifications := drainedNotifications s + 1\<rparr>
                   else s1\<lparr>m_lastUpdateTime := sim_Now env,
                           m_energyUpdateEvent := Some (sim_Now env + m_energyUpdateInterval s)\<rparr>)"
    using assms c by (auto simp: UpdateEnergySource_def Let_def HandleEnergyDrainedEvent_def p split: if_splits)
  then show ?thesis using c p by blast
qed

lemma UpdateEnergySource_returns:
  assumes "\<not> sim_IsFinished env" "CalculateRemainingEnergy env (s\<lparr>m_energyUpdateEvent := None\<rparr>) = Inr s1"
  shows "UpdateEnergySource env s =
           Inr (if m_remainingEnergyJ s1 \<le> m_lowBatteryTh s1 * m_initialEnergyJ s1
                then HandleEnergyDrainedEvent (s1\<lparr>m_lastUpdateTime := sim_Now env\<rparr>)
                else s1\<lparr>m_lastUpdateTime := sim_Now env,
                        m_energyUpdateEvent := Some (sim_Now env + m_energyUpdateInterval s1)\<rparr>)"
  using assms by (simp add: UpdateEnergySource_def Let_def)

lemma UpdateEnergySource_eq:
  assumes "\<not> sim_IsFinished env"
    and "Discharge (s\<lparr>m_energyUpdateEvent := None\<rparr>) (CalculateTotalCurrent env * 1000) (sim_Now env) = Inr (alpha, s1)"
    and "m_lastUpdateTime s \<le> sim_Now env"
  shows "UpdateEnergySource env s =
     Inr (if m_remainingEnergyJ s < (alpha - m_lastUpdateAlpha s) * m_supplyVoltageV s
          then if 0 \<le> m_lowBatteryTh s * m_initialEnergyJ s
               then s1\<lparr>m_remainingEnergyJ := 0,
                       m_supplyVoltageV := GetVoltage s (CalculateTotalCurrent env),
                       m_lastUpdateAlpha := alpha,
                       m_lastUpdateTime := sim_Now env,
                       drainedNotifications := drainedNotifications s + 1\<rparr>
               else s1\<lparr>m_remainingEnergyJ := 0,
                       m_supplyVoltageV := GetVoltage s (CalculateTotalCurrent env),
                       m_lastUpdateAlpha := alpha,
                       m_lastUpdateTime := sim_Now env,
                       m_energyUpdateEvent := Some (sim_Now env + m_energyUpdateInterval s)\<rparr>
          else if m_remainingEnergyJ s - (alpha - m_lastUpdateAlpha s) * m_supplyVoltageV s
                  \<le> m_lowBatteryTh s * m_initialEnergyJ s
               then s1\<lparr>m_remainingEnergyJ := m_remainingEnergyJ s - (alpha - m_lastUpdateAlpha s) * m_supplyVoltageV s,
                       m_drainedCapacity := alpha / 3600,
                       m_supplyVoltageV := GetVoltage (s\<lparr>m_drainedCapacity := alpha / 3600\<rparr>) (CalculateTotalCurrent env),
                       m_lastUpdateAlpha := alpha,
                       m_lastUpdateTime := sim_Now env,
                       drainedNotifications := drainedNotifications s + 1\<rparr>
               else s1\<lparr>m_remainingEnergyJ := m_remainingEnergyJ s - (alpha - m_lastUpdateAlpha s) * m_supplyVoltageV s,
                       m_drainedCapacity := alpha / 3600,
                       m_supplyVoltageV := GetVoltage (s\<lparr>m_drainedCapacity := alpha / 3600\<rparr>) (CalculateTotalCurrent env),
                       m_lastUpdateAlpha := alpha,
                       m_lastUpdateTime := sim_Now env,
                       m_energyUpdateEvent := Some (sim_Now env + m_energyUpdateInterval s)\<rparr>)"
proof -
  let ?s0 = "s\<lparr>m_energyUpdateEvent := None\<rparr>"
  have t: "m_lastUpdateTime ?s0 \<le> sim_Now env" using assms(3) by simp
  obtain ld ts where s1: "s1 = ?s0\<lparr>m_load := ld, m_previousLoad := CalculateTotalCurrent env * 1000,
      m_timeStamps := ts, m_lastSampleTime := sim_Now env\<rparr>"
    using Discharge_shape[OF assms(2)] by blast
  have v: "GetVoltage ?s0 i = GetVoltage s i"
     "GetVoltage (?s0\<lparr>m_drainedCapacity := d\<rparr>) i = GetVoltage (s\<lparr>m_drainedCapacity := d\<rparr>) i" for i d
    by (rule GetVoltage_cong; simp)+
  note c = CalculateRemainingEnergy_eq[OF assms(2) t]
  show ?thesis
  proof (cases "m_remainingEnergyJ s < (alpha - m_lastUpdateAlpha s) * m_supplyVoltageV s")
    case True
    then have c1: "CalculateRemainingEnergy env ?s0 = Inr (s1\<lparr>m_remainingEnergyJ := 0,
                  m_supplyVoltageV := GetVoltage s (CalculateTotalCurrent env),
                  m_lastUpdateAlpha := alpha\<rparr>)"
      using c by (simp add: v)
    show ?thesis
      unfolding UpdateEnergySource_returns[OF assms(1) c1] using True
      by (simp add: HandleEnergyDrainedEvent_def s1)
  next
    case False
    then have c1: "CalculateRemainingEnergy env ?s0 = Inr (s1\<lparr>m_remainingEnergyJ := m_remainingEnergyJ s - (alpha - m_lastUpdateAlpha s) * m_supplyVoltageV s,
                  m_drainedCapacity := alpha / 3600,
                  m_supplyVoltageV := GetVoltage (s\<lparr>m_drainedCapacity := alpha / 3600\<rparr>) (CalculateTotalCurrent env),
                  m_lastUpdateAlpha := alpha\<rparr>)"
      using c by (simp add: v)
    show ?thesis
      unfolding UpdateEnergySource_returns[OF assms(1) c1] using False
      by (simp add: HandleEnergyDrainedEvent_def s1)
  qed
qed



lemma UpdateEnergySource_outcome:
  assumes "\<not> sim_IsFinished env" "UpdateEnergySource env s = Inr s'"
  shows "if m_remainingEnergyJ s' \<le> m_lowBatteryTh s' * m_initialEnergyJ s'
         then drainedNotifications s' = drainedNotifications s + 1 \<and> m_energyUpdateEvent s' = None
         else drainedNotifications s' = drainedNotifications s
              \<and> m_energyUpdateEvent s' = Some (sim_Now env + m_energyUpdateInterval s)"
proof -
  obtain c1 where c1: "CalculateRemainingEnergy env (s\<lparr>m_energyUpdateEvent := None\<rparr>) = Inr c1"
    and s': "s' = (if m_remainingEnergyJ c1 \<le> m_lowBatteryTh s * m_initialEnergyJ s
                   then c1\<lparr>m_lastUpdateTime := sim_Now env,
                           drainedNotifications := drainedNotifications s + 1\<rparr>
                   else c1\<lparr>m_lastUpdateTime := sim_Now env,
                           m_energyUpdateEvent := Some (sim_Now env + m_energyUpdateInterval s)\<rparr>)"
    and e: "m_energyUpdateEvent c1 = None" and n: "drainedNotifications c1 = drainedNotifications s"
    using UpdateEnergySource_running[OF assms] by blast
  obtain ld ts r d v a where f: "c1 = s\<lparr>m_energyUpdateEvent := None, m_load := ld,
            m_previousLoad := CalculateTotalCurrent env * 1000,
            m_timeStamps := ts, m_lastSampleTime := sim_Now env, m_remainingEnergyJ := r,
            m_drainedCapacity := d, m_supplyVoltageV := v, m_lastUpdateAlpha := a\<rparr>"
    using CalculateRemainingEnergy_frame[OF c1] by blast
  have p: "m_lowBatteryTh c1 = m_lowBatteryTh s" "m_initialEnergyJ c1 = m_initialEnergyJ s"
    by (simp_all add: f)
  show ?thesis
  proof (cases "m_remainingEnergyJ c1 \<le> m_lowBatteryTh s * m_initialEnergyJ s")
    case True
    then have "s' = c1\<lparr>m_lastUpdateTime := sim_Now env,
                           drainedNotifications := drainedNotifications s + 1\<rparr>"
      using s' by simp
    then show ?thesis using True e p by simp
  next
    case False
    then have "s' = c1\<lparr>m_lastUpdateTime := sim_Now env,
                           m_energyUpdateEvent := Some (sim_Now env + m_energyUpdateInterval s)\<rparr>"
      using s' by simp
    then show ?thesis using False n p by simp
  qed
qed




subsection \<open>Bounds on the series\<close>

text \<open>
  Bounds on one term of the series and on the segment contribution: for a segment that has
  started, the contribution lies between the segment's length in minutes and 21 times it.
  Under a constant load since time 0 the contribution of the open segment grows with time.
\<close>

lemma rv_term_nonneg:
  assumes "d1 \<le> d2" "0 \<le> (x::real)"
  shows "0 \<le> (exp (- x * d1) - exp (- x * d2)) / x"
proof (cases "x = 0")
  case True
  then show ?thesis by simp
next
  case False
  then have "0 < x" using assms(2) by simp
  then have "- x * d2 \<le> - x * d1" using assms(1) by simp
  then have "exp (- x * d2) \<le> exp (- x * d1)" by simp
  then show ?thesis using \<open>0 < x\<close> by simp
qed

lemma one_minus_exp_le: "0 \<le> (y::real) \<Longrightarrow> 1 - exp (- y) \<le> y"
  using exp_ge_add_one_self[of "- y"] by simp

lemma rv_term_le:
  assumes "0 \<le> d1" "d1 \<le> d2" "0 \<le> (x::real)"
  shows "(exp (- x * d1) - exp (- x * d2)) / x \<le> d2 - d1"
proof (cases "x = 0")
  case True
  then show ?thesis using assms by simp
next
  case False
  then have x: "0 < x" using assms(3) by simp
  have "- x * d2 = - x * d1 + - (x * (d2 - d1))" by (simp add: algebra_simps)
  then have e: "exp (- x * d2) = exp (- x * d1) * exp (- (x * (d2 - d1)))"
    by (simp only: exp_add)
  have "exp (- x * d1) - exp (- x * d2) = exp (- x * d1) * (1 - exp (- (x * (d2 - d1))))"
    unfolding e by (simp only: right_diff_distrib mult_1_right)
  also have "\<dots> \<le> 1 * (x * (d2 - d1))"
  proof (rule mult_mono)
    show "exp (- x * d1) \<le> 1" using x assms(1) by simp
    show "1 - exp (- (x * (d2 - d1))) \<le> x * (d2 - d1)"
      using one_minus_exp_le[of "x * (d2 - d1)"] x assms(2) by simp
    show "0 \<le> (1::real)" by simp
    show "0 \<le> 1 - exp (- (x * (d2 - d1)))" using x assms(2) by simp
  qed
  finally have "exp (- x * d1) - exp (- x * d2) \<le> x * (d2 - d1)" by simp
  then show ?thesis using x by (simp add: field_simps)
qed

lemma rv_A_spec_ge:
  assumes "sk_1 \<le> sk"
  shows "(sk - sk_1) / 60 \<le> rv_A_spec t sk sk_1 beta"
proof -
  have "0 \<le> (\<Sum>m = 1..10::nat.
                 (exp (- (beta\<^sup>2 * (real m)\<^sup>2) * ((t - sk) / 60))
                  - exp (- (beta\<^sup>2 * (real m)\<^sup>2) * ((t - sk_1) / 60)))
                 / (beta\<^sup>2 * (real m)\<^sup>2))"
    by (rule sum_nonneg, rule rv_term_nonneg) (use assms in simp_all)
  then show ?thesis by (simp add: rv_A_spec_def Let_def)
qed

lemma rv_A_spec_le:
  assumes "sk_1 \<le> sk" "sk \<le> t"
  shows "rv_A_spec t sk sk_1 beta \<le> 21 * ((sk - sk_1) / 60)"
proof -
  define S where "S = (\<Sum>m = 1..10::nat.
                 (exp (- (beta\<^sup>2 * (real m)\<^sup>2) * ((t - sk) / 60))
                  - exp (- (beta\<^sup>2 * (real m)\<^sup>2) * ((t - sk_1) / 60)))
                 / (beta\<^sup>2 * (real m)\<^sup>2))"
  have "S \<le> (\<Sum>m = 1..10::nat. (t - sk_1) / 60 - (t - sk) / 60)"
    unfolding S_def by (rule sum_mono, rule rv_term_le) (use assms in simp_all)
  also have "\<dots> = 10 * ((sk - sk_1) / 60)" by (simp add: field_simps)
  finally have "S \<le> 10 * ((sk - sk_1) / 60)" .
  moreover have "rv_A_spec t sk sk_1 beta = (sk - sk_1) / 60 + 2 * S"
    unfolding S_def by (simp add: rv_A_spec_def Let_def)
  ultimately show ?thesis by linarith
qed

lemma rv_A_spec_open_mono:
  assumes "t1 \<le> t2"
  shows "rv_A_spec t1 t1 0 beta + (t2 - t1) / 60 \<le> rv_A_spec t2 t2 0 beta"
proof -
  define x :: "nat \<Rightarrow> real" where "x m = beta\<^sup>2 * (real m)\<^sup>2" for m
  define S1 where "S1 = (\<Sum>m = 1..10::nat. (exp (- x m * ((t1 - t1) / 60)) - exp (- x m * ((t1 - 0) / 60))) / x m)"
  define S2 where "S2 = (\<Sum>m = 1..10::nat. (exp (- x m * ((t2 - t2) / 60)) - exp (- x m * ((t2 - 0) / 60))) / x m)"
  have xn: "0 \<le> x m" for m by (simp add: x_def)
  have A1: "rv_A_spec t1 t1 0 beta = (t1 - 0) / 60 + 2 * S1"
    by (simp only: rv_A_spec_def S1_def x_def Let_def)
  have A2: "rv_A_spec t2 t2 0 beta = (t2 - 0) / 60 + 2 * S2"
    by (simp only: rv_A_spec_def S2_def x_def Let_def)
  have "S2 - S1 = (\<Sum>m = 1..10::nat.
          (exp (- x m * ((t2 - t2) / 60)) - exp (- x m * ((t2 - 0) / 60))) / x m
          - (exp (- x m * ((t1 - t1) / 60)) - exp (- x m * ((t1 - 0) / 60))) / x m)"
    by (simp only: S1_def S2_def sum_subtractf)
  also have "\<dots> = (\<Sum>m = 1..10::nat. (exp (- x m * (t1 / 60)) - exp (- x m * (t2 / 60))) / x m)"
    by (rule sum.cong) (simp_all add: diff_divide_distrib)
  finally have d: "S2 - S1 = (\<Sum>m = 1..10::nat. (exp (- x m * (t1 / 60)) - exp (- x m * (t2 / 60))) / x m)" .
  have "0 \<le> S2 - S1"
    unfolding d by (rule sum_nonneg, rule rv_term_nonneg) (use assms xn in simp_all)
  then show ?thesis unfolding A1 A2 by (simp add: field_simps)
qed





subsection \<open>Alpha under loads that never fall\<close>

text \<open>
  The contribution of an open segment is 0 at its start and grows with time. The total
  alpha is the sum over the steps of the load, less the last load's contribution since the
  last time stamp, which is 0 at the last sample time. So, for loads that are not negative
  and never fall, the alpha at a later time is not below the alpha at the last sample
  time, whether the later call overwrites the open time stamp or appends a segment.
\<close>

lemma rv_F_zero [simp]: "rv_F beta 0 = 0"
  by (simp add: rv_F_def)




lemma alpha_spec_single [simp]: "alpha_spec L [s] t beta = 0"
  by (simp add: alpha_spec_def)














section \<open>Scenarios\<close>

text \<open>
  The battery is created at time 0 with the default attributes.
\<close>

lemma running_simps [simp]:
  "sim_Now (running t i) = t" "\<not> sim_IsFinished (running t i)" "CalculateTotalCurrent (running t i) = i"
  by (simp_all add: running_def CalculateTotalCurrent_def)

lemma CreateObject_fields [simp]:
  "m_initialEnergyJ (CreateObject now) = 31752"
  "m_remainingEnergyJ (CreateObject now) = 31752"
  "m_drainedCapacity (CreateObject now) = 0"
  "m_supplyVoltageV (CreateObject now) = 405 / 100"
  "m_lowBatteryTh (CreateObject now) = 1 / 10"
  "m_energyUpdateEvent (CreateObject now) = None"
  "m_lastUpdateTime (CreateObject now) = 0"
  "m_energyUpdateInterval (CreateObject now) = 1"
  "m_minVoltTh (CreateObject now) = 33 / 10"
  "m_load (CreateObject now) = []"
  "m_timeStamps (CreateObject now) = [now]"
  "m_lastSampleTime (CreateObject now) = now"
  "m_previousLoad (CreateObject now) = - 1"
  "m_beta (CreateObject now) = 637 / 1000"
  "m_lastUpdateAlpha (CreateObject now) = 0"
  "drainedNotifications (CreateObject now) = 0"
  by (simp_all add: CreateObject_def Seconds_def)

lemma Discharge_fresh:
  assumes "load \<noteq> - 1"
  shows "Discharge (CreateObject now) load t =
           Inr (load * rv_A_spec t t now (637 / 1000),
                (CreateObject now)\<lparr>m_load := [load], m_previousLoad := load,
                                   m_timeStamps := [now, t], m_lastSampleTime := t\<rparr>)"
proof -
  have r: "Discharge_record (CreateObject now) load t =
             Inr ((CreateObject now)\<lparr>m_load := [load], m_previousLoad := load,
                                   m_timeStamps := [now, t], m_lastSampleTime := t\<rparr>)"
    using assms by (simp add: Discharge_record_def CreateObject_def)
  show ?thesis
    using Discharge_returns[OF r] by (simp add: alpha_spec_one CreateObject_def)
qed

lemma CreateObject_voltage: "GetVoltage (CreateObject now) i = 424339 / 100000 - (83 / 1000) * i"
proof -
  have "GetVoltage (CreateObject now) i =
           m_eFull (CreateObject now) + m_internalResistance (CreateObject now) * m_typCurrent (CreateObject now)
           - m_internalResistance (CreateObject now) * i"
    by (rule GetVoltage_undrained) (simp_all add: CreateObject_def)
  then show ?thesis by (simp add: CreateObject_def)
qed


text \<open>
  Scenario A: 1 A drawn, first update after 600 s. The energy delta exceeds the 31752 J of
  the battery, so the remaining energy is clamped to 0; a second update at 600 s notifies
  again, and a recomputation at 1200 s clamps again.
\<close>

lemma scenario_clamp_alpha: "10000 \<le> 1000 * rv_A_spec 600 600 0 (637 / 1000)"
  using rv_A_spec_ge[of 0 600 600 "637 / 1000"] by simp

lemma scenario_clamp_calc:
  "CalculateRemainingEnergy (running 600 1) (CreateObject 0) =
     Inr ((CreateObject 0)\<lparr>m_load := [1000], m_previousLoad := 1000,
            m_timeStamps := [0, 600], m_lastSampleTime := 600,
            m_remainingEnergyJ := 0,
            m_supplyVoltageV := GetVoltage (CreateObject 0) 1,
            m_lastUpdateAlpha := 1000 * rv_A_spec 600 600 0 (637 / 1000)\<rparr>)"
proof -
  have d: "Discharge (CreateObject 0) (CalculateTotalCurrent (running 600 1) * 1000) (sim_Now (running 600 1))
     = Inr (1000 * rv_A_spec 600 600 0 (637 / 1000),
                (CreateObject 0)\<lparr>m_load := [1000], m_previousLoad := 1000,
                                   m_timeStamps := [0, 600], m_lastSampleTime := 600\<rparr>)"
    using Discharge_fresh[of 1000 0 600] by simp
  have t: "m_lastUpdateTime (CreateObject 0) \<le> sim_Now (running 600 1)"
    by (simp add: CreateObject_def Seconds_def)
  have c: "m_remainingEnergyJ (CreateObject 0)
           < (1000 * rv_A_spec 600 600 0 (637 / 1000) - m_lastUpdateAlpha (CreateObject 0))
             * m_supplyVoltageV (CreateObject 0)"
    using scenario_clamp_alpha by (simp add: CreateObject_def)
  show ?thesis
    unfolding CalculateRemainingEnergy_eq[OF d t] using c by simp
qed

lemma scenario_clamp_first: "takesClampBranch (running 600 1) (CreateObject 0)"
proof -
  have d: "Discharge (CreateObject 0) (CalculateTotalCurrent (running 600 1) * 1000) (sim_Now (running 600 1))
     = Inr (1000 * rv_A_spec 600 600 0 (637 / 1000),
                (CreateObject 0)\<lparr>m_load := [1000], m_previousLoad := 1000,
                                   m_timeStamps := [0, 600], m_lastSampleTime := 600\<rparr>)"
    using Discharge_fresh[of 1000 0 600] by simp
  show ?thesis unfolding takesClampBranch_iff[OF d] using scenario_clamp_alpha by simp
qed

lemma scenario_clamp_calc_second:
  defines "cA \<equiv> projr (CalculateRemainingEnergy (running 600 1) (CreateObject 0))"
  shows "takesClampBranch (running 1200 1) cA"
    and "\<not> isl (CalculateRemainingEnergy (running 1200 1) cA)"
proof -
  define a1 where "a1 = 1000 * rv_A_spec 600 600 0 (637 / 1000)"
  define a2 where "a2 = 1000 * rv_A_spec 1200 1200 0 (637 / 1000)"
  have g: "a1 + 10000 \<le> a2"
    using rv_A_spec_open_mono[of 600 1200 "637 / 1000"] by (simp add: a1_def a2_def)
  have cA: "cA = (CreateObject 0)\<lparr>m_load := [1000], m_previousLoad := 1000,
            m_timeStamps := [0, 600], m_lastSampleTime := 600,
            m_remainingEnergyJ := 0,
            m_supplyVoltageV := 416039 / 100000,
            m_lastUpdateAlpha := a1\<rparr>"
    unfolding cA_def scenario_clamp_calc a1_def by (simp add: CreateObject_voltage)
  have i: "load_history_inv cA" by (simp add: load_history_inv_def cA)
  have d: "Discharge cA (CalculateTotalCurrent (running 1200 1) * 1000) (sim_Now (running 1200 1))
           = Inr (a2, cA\<lparr>m_timeStamps := [0, 1200], m_lastSampleTime := 1200\<rparr>)"
    using Discharge_same[OF i, of 1000 1200] by (simp add: a2_def cA alpha_spec_one)
  have t: "m_lastUpdateTime cA \<le> sim_Now (running 1200 1)" by (simp add: cA)
  show "takesClampBranch (running 1200 1) cA"
    unfolding takesClampBranch_iff[OF d] using g by (simp add: cA)
  show "\<not> isl (CalculateRemainingEnergy (running 1200 1) cA)"
    unfolding CalculateRemainingEnergy_eq[OF d t] by simp
qed

lemma scenario_clamp_update:
  "UpdateEnergySource (running 600 1) (CreateObject 0) =
     Inr ((CreateObject 0)\<lparr>m_load := [1000], m_previousLoad := 1000,
            m_timeStamps := [0, 600], m_lastSampleTime := 600,
            m_remainingEnergyJ := 0,
            m_supplyVoltageV := GetVoltage (CreateObject 0) 1,
            m_lastUpdateAlpha := 1000 * rv_A_spec 600 600 0 (637 / 1000),
            m_lastUpdateTime := 600,
            drainedNotifications := 1\<rparr>)"
proof -
  let ?b = "CreateObject 0"
  have i: "load_history_inv (?b\<lparr>m_energyUpdateEvent := None\<rparr>)"
    by (simp add: load_history_inv_def CreateObject_def)
  have d: "Discharge (?b\<lparr>m_energyUpdateEvent := None\<rparr>) (CalculateTotalCurrent (running 600 1) * 1000)
             (sim_Now (running 600 1))
           = Inr (1000 * rv_A_spec 600 600 0 (637 / 1000),
                  ?b\<lparr>m_load := [1000], m_previousLoad := 1000,
                     m_timeStamps := [0, 600], m_lastSampleTime := 600\<rparr>)"
    using Discharge_changed[OF i, of 1000 600] by (simp add: CreateObject_def alpha_spec_one)
  have t: "m_lastUpdateTime ?b \<le> sim_Now (running 600 1)"
    by (simp add: CreateObject_def Seconds_def)
  have c: "m_remainingEnergyJ ?b
           < (1000 * rv_A_spec 600 600 0 (637 / 1000) - m_lastUpdateAlpha ?b) * m_supplyVoltageV ?b"
    using scenario_clamp_alpha by (simp add: CreateObject_def)
  have th: "0 \<le> m_lowBatteryTh ?b * m_initialEnergyJ ?b" by (simp add: CreateObject_def)
  have n: "drainedNotifications ?b = 0" by (simp add: CreateObject_def)
  show ?thesis
    unfolding UpdateEnergySource_eq[OF running_simps(2) d t] using c th by (simp add: n)
qed

lemma scenario_clamp_second:
  defines "uA \<equiv> projr (UpdateEnergySource (running 600 1) (CreateObject 0))"
  shows "\<not> isl (UpdateEnergySource (running 600 1) uA)"
    and "drainedNotifications (projr (UpdateEnergySource (running 600 1) uA)) = 2"
    and "m_energyUpdateEvent (projr (UpdateEnergySource (running 600 1) uA)) = None"
proof -
  define aA where "aA = 1000 * rv_A_spec 600 600 0 (637 / 1000)"
  have uA: "uA = (CreateObject 0)\<lparr>m_load := [1000], m_previousLoad := 1000,
            m_timeStamps := [0, 600], m_lastSampleTime := 600,
            m_remainingEnergyJ := 0,
            m_supplyVoltageV := GetVoltage (CreateObject 0) 1,
            m_lastUpdateAlpha := aA,
            m_lastUpdateTime := 600,
            drainedNotifications := 1\<rparr>"
    unfolding uA_def scenario_clamp_update aA_def by simp
  have i: "load_history_inv (uA\<lparr>m_energyUpdateEvent := None\<rparr>)"
    by (simp add: load_history_inv_def uA)
  have d: "Discharge (uA\<lparr>m_energyUpdateEvent := None\<rparr>) (CalculateTotalCurrent (running 600 1) * 1000)
             (sim_Now (running 600 1))
           = Inr (aA, uA\<lparr>m_energyUpdateEvent := None, m_timeStamps := [0, 600], m_lastSampleTime := 600\<rparr>)"
    using Discharge_same[OF i, of 1000 600] by (simp add: aA_def uA alpha_spec_one)
  have t: "m_lastUpdateTime uA \<le> sim_Now (running 600 1)" by (simp add: uA)
  have c: "\<not> m_remainingEnergyJ uA < (aA - m_lastUpdateAlpha uA) * m_supplyVoltageV uA"
    by (simp add: uA)
  have th: "m_remainingEnergyJ uA - (aA - m_lastUpdateAlpha uA) * m_supplyVoltageV uA
              \<le> m_lowBatteryTh uA * m_initialEnergyJ uA"
    by (simp add: uA)
  note u = UpdateEnergySource_eq[OF running_simps(2) d t]
  show "\<not> isl (UpdateEnergySource (running 600 1) uA)" unfolding u by simp
  show "drainedNotifications (projr (UpdateEnergySource (running 600 1) uA)) = 2"
    unfolding u using c th by (simp add: uA)
  show "m_energyUpdateEvent (projr (UpdateEnergySource (running 600 1) uA)) = None"
    unfolding u using c th by (simp add: uA)
qed

text \<open>
  Scenario B: 0.1 A drawn with the first update after 60 s, then 0.001 A with the next
  update at 120 s. The second update finds a smaller alpha and adds energy.
\<close>

lemma scenario_recovery_alpha:
  "100 \<le> 100 * rv_A_spec 60 60 0 (637 / 1000)" "100 * rv_A_spec 60 60 0 (637 / 1000) \<le> 2100"
  using rv_A_spec_ge[of 0 60 60 "637 / 1000"] rv_A_spec_le[of 0 60 60 "637 / 1000"] by simp_all

lemma scenario_recovery_calc:
  "CalculateRemainingEnergy (running 60 (1 / 10)) (CreateObject 0) =
     Inr ((CreateObject 0)\<lparr>m_load := [100], m_previousLoad := 100,
            m_timeStamps := [0, 60], m_lastSampleTime := 60,
            m_remainingEnergyJ := 31752 - 100 * rv_A_spec 60 60 0 (637 / 1000) * (405 / 100),
            m_drainedCapacity := 100 * rv_A_spec 60 60 0 (637 / 1000) / 3600,
            m_supplyVoltageV :=
              GetVoltage ((CreateObject 0)\<lparr>m_drainedCapacity := 100 * rv_A_spec 60 60 0 (637 / 1000) / 3600\<rparr>) (1 / 10),
            m_lastUpdateAlpha := 100 * rv_A_spec 60 60 0 (637 / 1000)\<rparr>)"
proof -
  have d: "Discharge (CreateObject 0) (CalculateTotalCurrent (running 60 (1 / 10)) * 1000)
             (sim_Now (running 60 (1 / 10)))
           = Inr (100 * rv_A_spec 60 60 0 (637 / 1000),
                  (CreateObject 0)\<lparr>m_load := [100], m_previousLoad := 100,
                     m_timeStamps := [0, 60], m_lastSampleTime := 60\<rparr>)"
    using Discharge_fresh[of 100 0 60] by simp
  have t: "m_lastUpdateTime (CreateObject 0) \<le> sim_Now (running 60 (1 / 10))" by simp
  show ?thesis
    unfolding CalculateRemainingEnergy_eq[OF d t] using scenario_recovery_alpha by simp
qed

lemma scenario_recovery_unclamped: "\<not> takesClampBranch (running 60 (1 / 10)) (CreateObject 0)"
proof -
  have d: "Discharge (CreateObject 0) (CalculateTotalCurrent (running 60 (1 / 10)) * 1000)
             (sim_Now (running 60 (1 / 10)))
           = Inr (100 * rv_A_spec 60 60 0 (637 / 1000),
                  (CreateObject 0)\<lparr>m_load := [100], m_previousLoad := 100,
                     m_timeStamps := [0, 60], m_lastSampleTime := 60\<rparr>)"
    using Discharge_fresh[of 100 0 60] by simp
  show ?thesis unfolding takesClampBranch_iff[OF d] using scenario_recovery_alpha by simp
qed




text \<open>
  Scenario C: 12 A drawn, first update at time 0. The supply voltage falls to 3.24739 V,
  below the threshold of 3.3 V, while the energy is untouched; then
  \<^verbatim>\<open>DecreaseRemainingEnergy (0)\<close>, and the periodic update that is due at time 1.
\<close>

lemma scenario_heavy_first:
  "UpdateEnergySource (running 0 12) (CreateObject 0) =
     Inr ((CreateObject 0)\<lparr>m_load := [12000], m_previousLoad := 12000,
            m_timeStamps := [0, 0], m_lastSampleTime := 0,
            m_remainingEnergyJ := 31752,
            m_drainedCapacity := 0,
            m_supplyVoltageV := 324739 / 100000,
            m_lastUpdateAlpha := 0,
            m_lastUpdateTime := 0,
            m_energyUpdateEvent := Some 1\<rparr>)"
proof -
  let ?b = "CreateObject 0"
  have i: "load_history_inv (?b\<lparr>m_energyUpdateEvent := None\<rparr>)"
    by (simp add: load_history_inv_def)
  have d: "Discharge (?b\<lparr>m_energyUpdateEvent := None\<rparr>) (CalculateTotalCurrent (running 0 12) * 1000)
             (sim_Now (running 0 12))
           = Inr (0, ?b\<lparr>m_load := [12000], m_previousLoad := 12000,
                     m_timeStamps := [0, 0], m_lastSampleTime := 0\<rparr>)"
    using Discharge_changed[OF i, of 12000 0] by (simp add: alpha_spec_one CreateObject_def)
  have t: "m_lastUpdateTime ?b \<le> sim_Now (running 0 12)" by simp
  have v: "GetVoltage (?b\<lparr>m_drainedCapacity := 0\<rparr>) 12 = 324739 / 100000"
  proof -
    have e: "?b\<lparr>m_drainedCapacity := 0\<rparr> = ?b" by (simp add: CreateObject_def)
    show ?thesis unfolding e by (simp add: CreateObject_voltage)
  qed
  show ?thesis
    unfolding UpdateEnergySource_eq[OF running_simps(2) d t] by (simp add: v)
qed

lemma scenario_heavy_decrease:
  "DecreaseRemainingEnergy (projr (UpdateEnergySource (running 0 12) (CreateObject 0))) 0 =
     Inr ((CreateObject 0)\<lparr>m_load := [12000], m_previousLoad := 12000,
            m_timeStamps := [0, 0], m_lastSampleTime := 0,
            m_remainingEnergyJ := 31752,
            m_drainedCapacity := 0,
            m_supplyVoltageV := 324739 / 100000,
            m_lastUpdateAlpha := 0,
            m_lastUpdateTime := 0,
            m_energyUpdateEvent := Some 1,
            drainedNotifications := 1\<rparr>)"
  by (simp add: scenario_heavy_first DecreaseRemainingEnergy_def Let_def HandleEnergyDrainedEvent_def)

lemma scenario_heavy_alpha:
  "200 \<le> 12000 * rv_A_spec 1 1 0 (637 / 1000)" "12000 * rv_A_spec 1 1 0 (637 / 1000) \<le> 4200"
  using rv_A_spec_ge[of 0 1 1 "637 / 1000"] rv_A_spec_le[of 0 1 1 "637 / 1000"] by simp_all

lemma scenario_heavy_second:
  defines "y \<equiv> projr (DecreaseRemainingEnergy (projr (UpdateEnergySource (running 0 12) (CreateObject 0))) 0)"
  shows "drainedNotifications y = 1"
    and "\<not> isl (UpdateEnergySource (running 1 12) y)"
    and "m_energyUpdateEvent (projr (UpdateEnergySource (running 1 12) y)) = Some 2"
    and "drainedNotifications (projr (UpdateEnergySource (running 1 12) y)) = 1"
proof -
  define a3 where "a3 = 12000 * rv_A_spec 1 1 0 (637 / 1000)"
  have a: "200 \<le> a3" "a3 \<le> 4200" using scenario_heavy_alpha by (simp_all add: a3_def)
  have y: "y = (CreateObject 0)\<lparr>m_load := [12000], m_previousLoad := 12000,
            m_timeStamps := [0, 0], m_lastSampleTime := 0,
            m_remainingEnergyJ := 31752,
            m_drainedCapacity := 0,
            m_supplyVoltageV := 324739 / 100000,
            m_lastUpdateAlpha := 0,
            m_lastUpdateTime := 0,
            m_energyUpdateEvent := Some 1,
            drainedNotifications := 1\<rparr>"
    unfolding y_def scenario_heavy_decrease by simp
  show "drainedNotifications y = 1" by (simp add: y)
  have i: "load_history_inv (y\<lparr>m_energyUpdateEvent := None\<rparr>)"
    by (simp add: load_history_inv_def y)
  have d: "Discharge (y\<lparr>m_energyUpdateEvent := None\<rparr>) (CalculateTotalCurrent (running 1 12) * 1000)
             (sim_Now (running 1 12))
           = Inr (a3, y\<lparr>m_energyUpdateEvent := None, m_timeStamps := [0, 1], m_lastSampleTime := 1\<rparr>)"
    using Discharge_same[OF i, of 12000 1] by (simp add: a3_def y alpha_spec_one)
  have t: "m_lastUpdateTime y \<le> sim_Now (running 1 12)" by (simp add: y)
  have c: "\<not> m_remainingEnergyJ y < (a3 - m_lastUpdateAlpha y) * m_supplyVoltageV y"
    using a by (simp add: y)
  have th: "\<not> m_remainingEnergyJ y - (a3 - m_lastUpdateAlpha y) * m_supplyVoltageV y
              \<le> m_lowBatteryTh y * m_initialEnergyJ y"
    using a by (simp add: y)
  have iv: "m_energyUpdateInterval y = 1" by (simp add: y)
  note u = UpdateEnergySource_eq[OF running_simps(2) d t]
  show "\<not> isl (UpdateEnergySource (running 1 12) y)" unfolding u by simp
  show "m_energyUpdateEvent (projr (UpdateEnergySource (running 1 12) y)) = Some 2"
    unfolding u using c th by (simp add: iv)
  show "drainedNotifications (projr (UpdateEnergySource (running 1 12) y)) = 1"
    unfolding u using c th by (simp add: y)
qed




text \<open>
  Scenario E: the initial energy set to 1 J, 0.1 A drawn, first recomputation after 60 s.
  The energy delta exceeds 1 J, so the recomputation takes the clamp branch. With the
  default cell parameters the voltage curve at a drained capacity between 0 and the rated
  capacity lies below the curve at 0.
\<close>

lemma voltage_spec_default_less:
  assumes "0 < d" "d < 245 / 100"
  shows "voltage_spec (405 / 100) (36 / 10) (36 / 10) (245 / 100) (11 / 10) (12 / 10) (83 / 1000) (233 / 100) d i
         < voltage_spec (405 / 100) (36 / 10) (36 / 10) (245 / 100) (11 / 10) (12 / 10) (83 / 1000) (233 / 100) 0 i"
proof -
  define K :: real where "K = \<bar>(405 / 100 - 36 / 10 + (405 / 100 - 36 / 10) * (exp (- (3 / (12 / 10)) * (11 / 10)) - 1))
                * (245 / 100 - 11 / 10) / (11 / 10)\<bar>"
  have K0: "0 \<le> K" by (simp add: K_def)
  have q: "0 < 245 / 100 - d" using assms(2) by simp
  have "1 \<le> (245 / 100) / (245 / 100 - d)" using q assms(1) by (simp add: field_simps)
  then have "K * 1 \<le> K * ((245 / 100) / (245 / 100 - d))" using K0 by (rule mult_left_mono)
  then have k: "K \<le> K * (245 / 100) / (245 / 100 - d)" by simp
  have "exp (- (3 / (12 / 10)) * d) < 1" using assms(1) by simp
  then have e: "(405 / 100 - 36 / 10) * exp (- (3 / (12 / 10)) * d) < 405 / 100 - 36 / 10" by simp
  have l: "voltage_spec (405 / 100) (36 / 10) (36 / 10) (245 / 100) (11 / 10) (12 / 10) (83 / 1000) (233 / 100) d i
        = 405 / 100 + K + (83 / 1000) * (233 / 100) - (405 / 100 - 36 / 10)
          - K * (245 / 100) / (245 / 100 - d) + (405 / 100 - 36 / 10) * exp (- (3 / (12 / 10)) * d)
          - (83 / 1000) * i"
    by (simp only: voltage_spec_def Let_def K_def)
  have r: "voltage_spec (405 / 100) (36 / 10) (36 / 10) (245 / 100) (11 / 10) (12 / 10) (83 / 1000) (233 / 100) 0 i
        = 405 / 100 + K + (83 / 1000) * (233 / 100) - (405 / 100 - 36 / 10)
          - K * (245 / 100) / (245 / 100 - 0) + (405 / 100 - 36 / 10) * exp (- (3 / (12 / 10)) * 0)
          - (83 / 1000) * i"
    by (simp only: voltage_spec_def Let_def K_def)
  have r': "K * (245 / 100) / (245 / 100 - 0) = K" "(405 / 100 - 36 / 10) * exp (- (3 / (12 / 10)) * 0) = 405 / 100 - 36 / 10"
    by simp_all
  show ?thesis unfolding l r r' using k e by linarith
qed

lemma scenario_small_battery:
  "SetInitialEnergy (CreateObject 0) 1 =
     Inr ((CreateObject 0)\<lparr>m_initialEnergyJ := 1, m_remainingEnergyJ := 1\<rparr>)"
  by (simp add: SetInitialEnergy_def)

lemma scenario_small_calc:
  "CalculateRemainingEnergy (running 60 (1 / 10)) ((CreateObject 0)\<lparr>m_initialEnergyJ := 1, m_remainingEnergyJ := 1\<rparr>) =
     Inr ((CreateObject 0)\<lparr>m_initialEnergyJ := 1, m_load := [100], m_previousLoad := 100,
            m_timeStamps := [0, 60], m_lastSampleTime := 60,
            m_remainingEnergyJ := 0,
            m_supplyVoltageV := GetVoltage (CreateObject 0) (1 / 10),
            m_lastUpdateAlpha := 100 * rv_A_spec 60 60 0 (637 / 1000)\<rparr>)"
proof -
  let ?b = "(CreateObject 0)\<lparr>m_initialEnergyJ := 1, m_remainingEnergyJ := 1\<rparr>"
  have i: "load_history_inv ?b" by (simp add: load_history_inv_def)
  have d: "Discharge ?b (CalculateTotalCurrent (running 60 (1 / 10)) * 1000) (sim_Now (running 60 (1 / 10)))
     = Inr (100 * rv_A_spec 60 60 0 (637 / 1000),
                ?b\<lparr>m_load := [100], m_previousLoad := 100,
                    m_timeStamps := [0, 60], m_lastSampleTime := 60\<rparr>)"
    using Discharge_changed[OF i, of 100 60] by (simp add: alpha_spec_one)
  have t: "m_lastUpdateTime ?b \<le> sim_Now (running 60 (1 / 10))" by simp
  have c: "m_remainingEnergyJ ?b < (100 * rv_A_spec 60 60 0 (637 / 1000) - m_lastUpdateAlpha ?b) * m_supplyVoltageV ?b"
    using scenario_recovery_alpha by simp
  have v: "GetVoltage ?b (1 / 10) = GetVoltage (CreateObject 0) (1 / 10)"
    by (rule GetVoltage_cong) simp_all
  show ?thesis
    unfolding CalculateRemainingEnergy_eq[OF d t] using c by (simp add: v)
qed

lemma scenario_small_clamped:
  "takesClampBranch (running 60 (1 / 10)) ((CreateObject 0)\<lparr>m_initialEnergyJ := 1, m_remainingEnergyJ := 1\<rparr>)"
proof -
  let ?b = "(CreateObject 0)\<lparr>m_initialEnergyJ := 1, m_remainingEnergyJ := 1\<rparr>"
  have i: "load_history_inv ?b" by (simp add: load_history_inv_def)
  have d: "Discharge ?b (CalculateTotalCurrent (running 60 (1 / 10)) * 1000) (sim_Now (running 60 (1 / 10)))
     = Inr (100 * rv_A_spec 60 60 0 (637 / 1000),
                ?b\<lparr>m_load := [100], m_previousLoad := 100,
                    m_timeStamps := [0, 60], m_lastSampleTime := 60\<rparr>)"
    using Discharge_changed[OF i, of 100 60] by (simp add: alpha_spec_one)
  show ?thesis unfolding takesClampBranch_iff[OF d] using scenario_recovery_alpha by simp
qed

section \<open>The claims\<close>

subsection \<open>C1: the remaining energy is never negative and does not grow\<close>




subsection \<open>C2: what triggers the drained notification\<close>

text \<open>
  Claim C2, as amended. An update on a running clock notifies the device energy models
  exactly when the remaining energy it leaves is at or below
  \<open>m_lowBatteryTh * m_initialEnergyJ\<close>, whatever the supply voltage is. The supply voltage
  decides only in \<^verbatim>\<open>DecreaseRemainingEnergy\<close>, which notifies exactly when the voltage stored
  before the call is at or below \<open>m_minVoltTh\<close>.
\<close>

theorem drained_notification_conditions:
  "(\<forall>s'. \<not> sim_IsFinished env \<and> UpdateEnergySource env s = Inr s' \<longrightarrow>
         drainedNotifications s' =
           drainedNotifications s
           + (if m_remainingEnergyJ s' \<le> m_lowBatteryTh s' * m_initialEnergyJ s' then 1 else 0))
   \<and> (\<forall>energyJ s'. DecreaseRemainingEnergy s energyJ = Inr s' \<longrightarrow>
         drainedNotifications s' =
           drainedNotifications s + (if m_supplyVoltageV s \<le> m_minVoltTh s then 1 else 0))"
proof (intro conjI allI impI)
  fix s'
  assume "\<not> sim_IsFinished env \<and> UpdateEnergySource env s = Inr s'"
  then show "drainedNotifications s' =
           drainedNotifications s
           + (if m_remainingEnergyJ s' \<le> m_lowBatteryTh s' * m_initialEnergyJ s' then 1 else 0)"
    using UpdateEnergySource_outcome[of env s s'] by (simp split: if_splits)
next
  fix energyJ s'
  assume "DecreaseRemainingEnergy s energyJ = Inr s'"
  then show "drainedNotifications s' =
           drainedNotifications s + (if m_supplyVoltageV s \<le> m_minVoltTh s then 1 else 0)"
    by (auto simp: DecreaseRemainingEnergy_def Let_def HandleEnergyDrainedEvent_def split: if_splits)
qed

text \<open>
  The update of scenario A notifies; taking 5 J from a fresh battery at 4.05 V does not;
  \<^verbatim>\<open>DecreaseRemainingEnergy (0)\<close> after the update of scenario C, at 3.24739 V, does.
\<close>

theorem drained_notification_conditions_witness:
  "\<not> sim_IsFinished (running 600 1)
   \<and> \<not> isl (UpdateEnergySource (running 600 1) (CreateObject 0))
   \<and> drainedNotifications (projr (UpdateEnergySource (running 600 1) (CreateObject 0))) = 1
   \<and> \<not> isl (DecreaseRemainingEnergy (CreateObject 0) 5)
   \<and> drainedNotifications (projr (DecreaseRemainingEnergy (CreateObject 0) 5)) = 0
   \<and> \<not> isl (DecreaseRemainingEnergy (projr (UpdateEnergySource (running 0 12) (CreateObject 0))) 0)
   \<and> drainedNotifications
        (projr (DecreaseRemainingEnergy (projr (UpdateEnergySource (running 0 12) (CreateObject 0))) 0)) = 1"
proof -
  let ?b = "CreateObject 0"
  obtain u where u: "UpdateEnergySource (running 600 1) ?b = Inr u"
    and ue: "u = projr (UpdateEnergySource (running 600 1) ?b)"
    by (simp add: scenario_clamp_update)
  have r: "m_remainingEnergyJ u \<le> m_lowBatteryTh u * m_initialEnergyJ u"
    by (simp add: ue scenario_clamp_update)
  obtain d where d: "DecreaseRemainingEnergy ?b 5 = Inr d"
    and de: "d = projr (DecreaseRemainingEnergy ?b 5)"
    by (simp add: DecreaseRemainingEnergy_def Let_def)
  have v: "\<not> m_supplyVoltageV ?b \<le> m_minVoltTh ?b" by simp
  obtain c where ce: "c = projr (UpdateEnergySource (running 0 12) ?b)"
    and cv: "m_supplyVoltageV c \<le> m_minVoltTh c" and cn: "drainedNotifications c = 0"
    by (simp add: scenario_heavy_first)
  obtain e where e: "DecreaseRemainingEnergy c 0 = Inr e"
    and ee: "e = projr (DecreaseRemainingEnergy c 0)"
    by (simp add: ce scenario_heavy_decrease)
  have "drainedNotifications u = 1"
    using drained_notification_conditions[of "running 600 1" ?b] u r by simp
  moreover have "drainedNotifications d = 0"
    using drained_notification_conditions[of "running 600 1" ?b] d v by simp
  moreover have "drainedNotifications e = 1"
    using drained_notification_conditions[of "running 600 1" c] e cv cn by simp
  ultimately show ?thesis
    unfolding ue de ee ce
    by (simp add: scenario_clamp_update scenario_heavy_decrease DecreaseRemainingEnergy_def Let_def)
qed

text \<open>
  Claim C2 as stated fails in scenario C: the update leaves the supply voltage at or below
  \<open>m_minVoltTh\<close>, notifies nobody and schedules the next periodic update.
\<close>

theorem low_voltage_update_counterexample:
  "\<not> isl (UpdateEnergySource (running 0 12) (CreateObject 0))
   \<and> m_supplyVoltageV (projr (UpdateEnergySource (running 0 12) (CreateObject 0)))
     \<le> m_minVoltTh (projr (UpdateEnergySource (running 0 12) (CreateObject 0)))
   \<and> drainedNotifications (projr (UpdateEnergySource (running 0 12) (CreateObject 0))) = 0
   \<and> m_energyUpdateEvent (projr (UpdateEnergySource (running 0 12) (CreateObject 0))) = Some 1"
  by (simp add: scenario_heavy_first)

subsection \<open>C3: notification and rescheduling\<close>

text \<open>
  Claim C3, as amended. Every update on a running clock ends in one of two ways. If the
  remaining energy it leaves is at or below \<open>m_lowBatteryTh * m_initialEnergyJ\<close>, it
  notifies once and leaves no periodic update pending; otherwise it notifies nobody and
  schedules exactly one periodic update, \<open>m_energyUpdateInterval\<close> after the present time.
  The source keeps no record of having notified.
\<close>

theorem update_notifies_or_reschedules:
  assumes "\<not> sim_IsFinished env" and "UpdateEnergySource env s = Inr s'"
  shows "(m_remainingEnergyJ s' \<le> m_lowBatteryTh s' * m_initialEnergyJ s' \<longrightarrow>
            drainedNotifications s' = drainedNotifications s + 1 \<and> m_energyUpdateEvent s' = None)
       \<and> (\<not> m_remainingEnergyJ s' \<le> m_lowBatteryTh s' * m_initialEnergyJ s' \<longrightarrow>
            drainedNotifications s' = drainedNotifications s
            \<and> m_energyUpdateEvent s' = Some (sim_Now env + m_energyUpdateInterval s))"
  using UpdateEnergySource_outcome[OF assms] by (simp split: if_splits)

text \<open>
  The update of scenario C reschedules for time 1.
\<close>

theorem update_notifies_or_reschedules_witness:
  "\<not> sim_IsFinished (running 0 12)
   \<and> \<not> isl (UpdateEnergySource (running 0 12) (CreateObject 0))
   \<and> drainedNotifications (projr (UpdateEnergySource (running 0 12) (CreateObject 0))) = 0
   \<and> m_energyUpdateEvent (projr (UpdateEnergySource (running 0 12) (CreateObject 0))) = Some 1"
proof -
  let ?b = "CreateObject 0"
  let ?u = "projr (UpdateEnergySource (running 0 12) ?b)"
  have f: "\<not> sim_IsFinished (running 0 12)" by simp
  have u: "UpdateEnergySource (running 0 12) ?b = Inr ?u" by (simp add: scenario_heavy_first)
  have r: "\<not> m_remainingEnergyJ ?u \<le> m_lowBatteryTh ?u * m_initialEnergyJ ?u"
    by (simp add: scenario_heavy_first)
  have "drainedNotifications ?u = 0" "m_energyUpdateEvent ?u = Some 1"
    using update_notifies_or_reschedules[OF f u] r by simp_all
  moreover have "\<not> isl (UpdateEnergySource (running 0 12) ?b)" by (simp add: scenario_heavy_first)
  ultimately show ?thesis by simp
qed

text \<open>
  Claim C3 as stated fails in both parts. In scenario A a second update at the same time
  notifies a second time. In scenario C, \<^verbatim>\<open>DecreaseRemainingEnergy\<close> notifies on the low
  voltage, and the periodic update that comes due at time 1 schedules the next one for
  time 2.
\<close>

theorem single_notification_counterexample:
  "\<not> isl (UpdateEnergySource (running 600 1) (CreateObject 0))
   \<and> drainedNotifications (projr (UpdateEnergySource (running 600 1) (CreateObject 0))) = 1
   \<and> \<not> isl (UpdateEnergySource (running 600 1)
               (projr (UpdateEnergySource (running 600 1) (CreateObject 0))))
   \<and> drainedNotifications
       (projr (UpdateEnergySource (running 600 1)
          (projr (UpdateEnergySource (running 600 1) (CreateObject 0))))) = 2
   \<and> \<not> isl (DecreaseRemainingEnergy (projr (UpdateEnergySource (running 0 12) (CreateObject 0))) 0)
   \<and> drainedNotifications
       (projr (DecreaseRemainingEnergy (projr (UpdateEnergySource (running 0 12) (CreateObject 0))) 0)) = 1
   \<and> \<not> isl (UpdateEnergySource (running 1 12)
               (projr (DecreaseRemainingEnergy
                  (projr (UpdateEnergySource (running 0 12) (CreateObject 0))) 0)))
   \<and> m_energyUpdateEvent
       (projr (UpdateEnergySource (running 1 12)
          (projr (DecreaseRemainingEnergy
             (projr (UpdateEnergySource (running 0 12) (CreateObject 0))) 0)))) = Some 2"
proof -
  have "\<not> isl (UpdateEnergySource (running 600 1) (CreateObject 0))"
    "drainedNotifications (projr (UpdateEnergySource (running 600 1) (CreateObject 0))) = 1"
    by (simp_all add: scenario_clamp_update)
  moreover have "\<not> isl (DecreaseRemainingEnergy (projr (UpdateEnergySource (running 0 12) (CreateObject 0))) 0)"
    by (simp add: scenario_heavy_decrease)
  ultimately show ?thesis
    using scenario_clamp_second(1,2) scenario_heavy_second(1,2,3) by blast
qed

subsection \<open>C4: the energy delta of an update\<close>

text \<open>
  Claim C4, as amended. Let alpha be what \<^verbatim>\<open>Discharge\<close> returns for the present load and
  time. The energy delta of the update is \<open>(alpha - m_lastUpdateAlpha)\<close> times the supply
  voltage before the update. If the remaining energy is at least the delta, the update
  removes exactly the delta; otherwise it sets the remaining energy to 0. In both cases the
  supply voltage is recomputed afterwards, from the state the subtraction left, and
  \<open>m_lastUpdateAlpha\<close> is then alpha.
\<close>

theorem energy_delta_per_update:
  assumes "CalculateRemainingEnergy env s = Inr s'"
  shows "\<exists>calculatedAlpha s1.
           Discharge s (CalculateTotalCurrent env * 1000) (sim_Now env) = Inr (calculatedAlpha, s1)
           \<and> (if m_remainingEnergyJ s < (calculatedAlpha - m_lastUpdateAlpha s) * m_supplyVoltageV s
               then m_remainingEnergyJ s' = 0
               else m_remainingEnergyJ s - m_remainingEnergyJ s'
                    = (calculatedAlpha - m_lastUpdateAlpha s) * m_supplyVoltageV s)
           \<and> m_supplyVoltageV s' = GetVoltage s' (CalculateTotalCurrent env)
           \<and> m_lastUpdateAlpha s' = calculatedAlpha"
proof -
  obtain alpha s1 where d: "Discharge s (CalculateTotalCurrent env * 1000) (sim_Now env) = Inr (alpha, s1)"
    and t: "m_lastUpdateTime s \<le> sim_Now env"
    using CalculateRemainingEnergy_Inr[OF assms] by blast
  obtain ld ts where s1: "s1 = s\<lparr>m_load := ld, m_previousLoad := CalculateTotalCurrent env * 1000,
      m_timeStamps := ts, m_lastSampleTime := sim_Now env\<rparr>"
    using Discharge_shape[OF d] by blast
  note c = CalculateRemainingEnergy_eq[OF d t]
  show ?thesis
  proof (cases "m_remainingEnergyJ s < (alpha - m_lastUpdateAlpha s) * m_supplyVoltageV s")
    case True
    then have s': "s' = s1\<lparr>m_remainingEnergyJ := 0,
                  m_supplyVoltageV := GetVoltage s (CalculateTotalCurrent env),
                  m_lastUpdateAlpha := alpha\<rparr>"
      using assms c by simp
    have "GetVoltage s' i = GetVoltage s i" for i
      by (rule GetVoltage_cong) (simp_all add: s' s1)
    then show ?thesis using d True by (simp add: s')
  next
    case False
    then have s': "s' = s1\<lparr>m_remainingEnergyJ := m_remainingEnergyJ s - (alpha - m_lastUpdateAlpha s) * m_supplyVoltageV s,
                  m_drainedCapacity := alpha / 3600,
                  m_supplyVoltageV := GetVoltage (s\<lparr>m_drainedCapacity := alpha / 3600\<rparr>) (CalculateTotalCurrent env),
                  m_lastUpdateAlpha := alpha\<rparr>"
      using assms c by simp
    have "GetVoltage s' i = GetVoltage (s\<lparr>m_drainedCapacity := alpha / 3600\<rparr>) i" for i
      by (rule GetVoltage_cong) (simp_all add: s' s1)
    then show ?thesis using d False by (simp add: s')
  qed
qed

text \<open>
  The first recomputation of scenario B removes \<open>alpha * 4.05\<close> J.
\<close>

theorem energy_delta_per_update_witness:
  "\<not> isl (CalculateRemainingEnergy (running 60 (1 / 10)) (CreateObject 0))
   \<and> m_remainingEnergyJ (CreateObject 0)
       - m_remainingEnergyJ (projr (CalculateRemainingEnergy (running 60 (1 / 10)) (CreateObject 0)))
     = (100 * rv_A_spec 60 60 0 (637 / 1000) - 0) * (405 / 100)
   \<and> m_lastUpdateAlpha (projr (CalculateRemainingEnergy (running 60 (1 / 10)) (CreateObject 0)))
     = 100 * rv_A_spec 60 60 0 (637 / 1000)"
proof -
  let ?b = "CreateObject 0"
  let ?c = "projr (CalculateRemainingEnergy (running 60 (1 / 10)) ?b)"
  have c: "CalculateRemainingEnergy (running 60 (1 / 10)) ?b = Inr ?c"
    by (simp add: scenario_recovery_calc)
  have d: "Discharge ?b (CalculateTotalCurrent (running 60 (1 / 10)) * 1000) (sim_Now (running 60 (1 / 10)))
           = Inr (100 * rv_A_spec 60 60 0 (637 / 1000),
                  ?b\<lparr>m_load := [100], m_previousLoad := 100,
                     m_timeStamps := [0, 60], m_lastSampleTime := 60\<rparr>)"
    using Discharge_fresh[of 100 0 60] by simp
  have n: "\<not> m_remainingEnergyJ ?b < (100 * rv_A_spec 60 60 0 (637 / 1000) - m_lastUpdateAlpha ?b) * m_supplyVoltageV ?b"
    using scenario_recovery_alpha by simp
  from energy_delta_per_update[OF c] d n
  have "m_remainingEnergyJ ?b - m_remainingEnergyJ ?c
          = (100 * rv_A_spec 60 60 0 (637 / 1000) - m_lastUpdateAlpha ?b) * m_supplyVoltageV ?b"
    and "m_lastUpdateAlpha ?c = 100 * rv_A_spec 60 60 0 (637 / 1000)"
    by auto
  moreover have "\<not> isl (CalculateRemainingEnergy (running 60 (1 / 10)) ?b)"
    by (simp add: scenario_recovery_calc)
  ultimately show ?thesis by simp
qed

text \<open>
  Claim C4 as stated fails in scenario A: the recomputation removes the 31752 J that were
  left, which is less than alpha times the supply voltage.
\<close>

theorem energy_delta_counterexample:
  "\<not> isl (CalculateRemainingEnergy (running 600 1) (CreateObject 0))
   \<and> \<not> isl (Discharge (CreateObject 0) 1000 600)
   \<and> m_remainingEnergyJ (CreateObject 0)
       - m_remainingEnergyJ (projr (CalculateRemainingEnergy (running 600 1) (CreateObject 0)))
     \<noteq> (fst (projr (Discharge (CreateObject 0) 1000 600)) - m_lastUpdateAlpha (CreateObject 0))
        * m_supplyVoltageV (CreateObject 0)"
  using scenario_clamp_alpha by (simp add: scenario_clamp_calc Discharge_fresh)

subsection \<open>C5: the alpha that Discharge returns\<close>

text \<open>
  Claim C5, the branch for a single time stamp. On a fresh battery a load of -1 mA equals
  the initial \<open>m_previousLoad\<close>, so nothing is recorded, the assertion on the sizes passes
  with no load and one time stamp, and the branch reads \<open>m_load[0]\<close> of an empty vector: no
  alpha is returned, where the claim has \<open>load * A(t, t, 0, \<beta>)\<close>. \<^verbatim>\<open>UpdateEnergySource\<close>
  reaches that read when the devices draw -0.001 A in total.
\<close>

theorem Discharge_single_timestamp:
  "Discharge (CreateObject 0) (- 1) 60 = Inl OutOfRange
   \<and> UpdateEnergySource (running 60 (- 1 / 1000)) (CreateObject 0) = Inl OutOfRange"
proof -
  have d: "Discharge s (- 1) 60 = Inl OutOfRange"
    if "m_load s = []" "m_timeStamps s = [0]" "m_previousLoad s = - 1" for s
    using that by (simp add: Discharge_def Discharge_record_def Discharge_alpha_def)
  have "Discharge (CreateObject 0) (- 1) 60 = Inl OutOfRange" by (rule d) simp_all
  moreover have "Discharge ((CreateObject 0)\<lparr>m_energyUpdateEvent := None\<rparr>) (- 1) 60 = Inl OutOfRange"
    by (rule d) simp_all
  ultimately show ?thesis
    by (simp add: UpdateEnergySource_def CalculateRemainingEnergy_def)
qed

text \<open>
  The sum over segments, the part of the claim that holds. Whenever
  \<^verbatim>\<open>Discharge (load, t)\<close> returns, at least two time stamps are recorded and the alpha it
  returns is the spec's sum over the recorded segments, with the spec's \<open>A\<close>
  (\<open>RvModelAFunction_spec\<close>).
\<close>

theorem Discharge_sum:
  assumes "Discharge s load t = Inr (alpha, s')"
  shows "2 \<le> length (m_timeStamps s')
         \<and> alpha = alpha_spec (m_load s') (m_timeStamps s') t (m_beta s')"
proof -
  have r: "Discharge_record s load t = Inr s'" by (rule Discharge_state[OF assms])
  have a: "Discharge_alpha s' t = Inr alpha"
    using assms r by (simp add: Discharge_def split: sum.splits)
  then have len: "length (m_load s') + 1 = length (m_timeStamps s')"
    by (auto simp: Discharge_alpha_def split: if_splits)
  have n1: "length (m_timeStamps s') \<noteq> 1"
    using a len by (auto simp: Discharge_alpha_def split: if_splits list.splits)
  show ?thesis using a Discharge_alpha_sum[OF len n1 Discharge_alpha_beta[OF a], of t] len n1 by auto
qed

subsection \<open>C6: recording a load\<close>

text \<open>
  Claim C6. Let the recorder's invariant hold before \<^verbatim>\<open>Discharge (load, t)\<close> and let \<open>t\<close> be
  no earlier than the last sample time. By the invariant \<open>m_previousLoad\<close> is the previously
  recorded load, the last element of \<open>m_load\<close>, whenever a load has been recorded. The
  recording part of the call returns. If \<open>load\<close> equals the previously recorded load, the
  state afterwards is the state before with the last (open) time stamp overwritten in
  place with \<open>t\<close> and \<open>m_lastSampleTime\<close> set to \<open>t\<close>: \<open>m_load\<close> is unchanged. Otherwise
  exactly one load and one time stamp are appended, \<open>m_previousLoad\<close> becomes \<open>load\<close> and
  \<open>m_lastSampleTime\<close> becomes \<open>t\<close>. In both cases \<open>m_previousLoad\<close> is \<open>load\<close> afterwards,
  \<open>m_load.size () == m_timeStamps.size () - 1\<close> holds, the time stamps are still in
  non-decreasing order, and the invariant holds again, so that the next call compares
  with the load recorded by this one. The state is the one \<^verbatim>\<open>Discharge\<close> returns, and
  \<^verbatim>\<open>Discharge\<close> does return whenever more than one time stamp is recorded and \<open>beta\<close> is
  not 0.
\<close>

theorem Discharge_records_load:
  assumes "load_history_inv s" and "m_lastSampleTime s \<le> t"
  shows "\<exists>s'. Discharge_record s load t = Inr s'
           \<and> (m_load s \<noteq> [] \<longrightarrow> m_previousLoad s = last (m_load s))
           \<and> (load = m_previousLoad s \<longrightarrow>
                s' = s\<lparr>m_timeStamps := (m_timeStamps s)[length (m_timeStamps s) - 1 := t],
                       m_lastSampleTime := t\<rparr>
                \<and> m_load s' = m_load s
                \<and> m_timeStamps s' = (m_timeStamps s)[length (m_timeStamps s) - 1 := t])
           \<and> (load \<noteq> m_previousLoad s \<longrightarrow>
                s' = s\<lparr>m_load := m_load s @ [load], m_previousLoad := load,
                       m_timeStamps := m_timeStamps s @ [t], m_lastSampleTime := t\<rparr>
                \<and> m_load s' = m_load s @ [load]
                \<and> m_timeStamps s' = m_timeStamps s @ [t])
           \<and> m_previousLoad s' = load
           \<and> (m_load s' \<noteq> [] \<longrightarrow> last (m_load s') = load)
           \<and> m_lastSampleTime s' = t
           \<and> last (m_timeStamps s') = t
           \<and> length (m_load s') + 1 = length (m_timeStamps s')
           \<and> sorted (m_timeStamps s')
           \<and> load_history_inv s'
           \<and> (\<forall>a s''. Discharge s load t = Inr (a, s'') \<longrightarrow> s'' = s')
           \<and> (length (m_timeStamps s') \<noteq> 1 \<and> m_beta s \<noteq> 0 \<longrightarrow> (\<exists>a. Discharge s load t = Inr (a, s')))"
proof -
  obtain s' where r: "Discharge_record s load t = Inr s'"
    using Discharge_record_same[OF assms(1), of load t] Discharge_record_changed[OF assms(1), of load t]
    by (cases "load = m_previousLoad s") blast+
  have i: "load_history_inv s'" by (rule Discharge_record_inv[OF assms r])
  have c0: "m_load s \<noteq> [] \<longrightarrow> m_previousLoad s = last (m_load s)"
    using assms(1) by (simp add: load_history_inv_def)
  have c1: "load = m_previousLoad s \<longrightarrow>
                s' = s\<lparr>m_timeStamps := (m_timeStamps s)[length (m_timeStamps s) - 1 := t],
                       m_lastSampleTime := t\<rparr>
                \<and> m_load s' = m_load s
                \<and> m_timeStamps s' = (m_timeStamps s)[length (m_timeStamps s) - 1 := t]"
    using r Discharge_record_same[OF assms(1), of load t] by auto
  have c2: "load \<noteq> m_previousLoad s \<longrightarrow>
                s' = s\<lparr>m_load := m_load s @ [load], m_previousLoad := load,
                       m_timeStamps := m_timeStamps s @ [t], m_lastSampleTime := t\<rparr>
                \<and> m_load s' = m_load s @ [load]
                \<and> m_timeStamps s' = m_timeStamps s @ [t]"
    using r Discharge_record_changed[OF assms(1), of load t] by auto
  obtain ld ts where sh: "s' = s\<lparr>m_load := ld, m_previousLoad := load, m_timeStamps := ts, m_lastSampleTime := t\<rparr>"
    using Discharge_record_shape[OF r] by blast
  have c3: "m_previousLoad s' = load" "m_lastSampleTime s' = t" "m_beta s' = m_beta s"
    by (simp_all add: sh)
  have c4: "length (m_load s') + 1 = length (m_timeStamps s')" "sorted (m_timeStamps s')"
    "last (m_timeStamps s') = t" "m_load s' \<noteq> [] \<longrightarrow> last (m_load s') = load"
    using i c3 by (simp_all add: load_history_inv_def)
  have d: "\<forall>a s''. Discharge s load t = Inr (a, s'') \<longrightarrow> s'' = s'"
    using r by (auto dest: Discharge_state)
  have e: "length (m_timeStamps s') \<noteq> 1 \<and> m_beta s \<noteq> 0 \<longrightarrow> (\<exists>a. Discharge s load t = Inr (a, s'))"
    using Discharge_returns[OF r c4(1)] c3(3) by auto
  show ?thesis using r i c0 c1 c2 c3(1,2) c4 d e by blast
qed

text \<open>
  Three calls in a row on a battery created at time 0. A load of 1000 mA at 60 s is
  appended. The same load at 90 s appends nothing and overwrites the open time stamp.
  A load of 500 mA at 120 s is appended.
\<close>

theorem Discharge_records_load_witness:
  "load_history_inv (CreateObject 0) \<and> m_lastSampleTime (CreateObject 0) \<le> 60
   \<and> (\<exists>s1. Discharge_record (CreateObject 0) 1000 60 = Inr s1
          \<and> m_load s1 = [1000] \<and> m_timeStamps s1 = [0, 60] \<and> m_previousLoad s1 = 1000
          \<and> load_history_inv s1 \<and> m_lastSampleTime s1 \<le> 90
          \<and> (\<exists>a. Discharge (CreateObject 0) 1000 60 = Inr (a, s1))
          \<and> (\<exists>s2. Discharge_record s1 1000 90 = Inr s2
                 \<and> m_load s2 = [1000] \<and> m_timeStamps s2 = [0, 90] \<and> m_previousLoad s2 = 1000
                 \<and> load_history_inv s2 \<and> m_lastSampleTime s2 \<le> 120
                 \<and> (\<exists>a. Discharge s1 1000 90 = Inr (a, s2))
                 \<and> (\<exists>s3. Discharge_record s2 500 120 = Inr s3
                        \<and> m_load s3 = [1000, 500] \<and> m_timeStamps s3 = [0, 90, 120]
                        \<and> m_previousLoad s3 = 500 \<and> load_history_inv s3)))"
proof -
  have i0: "load_history_inv (CreateObject 0)" by (rule CreateObject_inv)
  have t0: "m_lastSampleTime (CreateObject 0) \<le> 60" by simp
  from Discharge_records_load[OF i0 t0, of 1000]
  obtain s1 where r1: "Discharge_record (CreateObject 0) 1000 60 = Inr s1"
    and e1: "s1 = (CreateObject 0)\<lparr>m_load := m_load (CreateObject 0) @ [1000], m_previousLoad := 1000,
                       m_timeStamps := m_timeStamps (CreateObject 0) @ [60], m_lastSampleTime := 60\<rparr>"
    and i1: "load_history_inv s1"
    and d1: "length (m_timeStamps s1) \<noteq> 1 \<and> m_beta (CreateObject 0) \<noteq> 0
             \<longrightarrow> (\<exists>a. Discharge (CreateObject 0) 1000 60 = Inr (a, s1))"
    by auto
  have f1: "m_load s1 = [1000]" "m_timeStamps s1 = [0, 60]" "m_previousLoad s1 = 1000"
    "m_lastSampleTime s1 = 60" "m_beta s1 = 637 / 1000"
    by (simp_all add: e1)
  have t1: "m_lastSampleTime s1 \<le> 90" by (simp add: f1)
  from Discharge_records_load[OF i1 t1, of 1000]
  obtain s2 where r2: "Discharge_record s1 1000 90 = Inr s2"
    and e2: "s2 = s1\<lparr>m_timeStamps := (m_timeStamps s1)[length (m_timeStamps s1) - 1 := 90],
                       m_lastSampleTime := 90\<rparr>"
    and i2: "load_history_inv s2"
    and d2: "length (m_timeStamps s2) \<noteq> 1 \<and> m_beta s1 \<noteq> 0 \<longrightarrow> (\<exists>a. Discharge s1 1000 90 = Inr (a, s2))"
    using f1(3) by auto
  have f2: "m_load s2 = [1000]" "m_timeStamps s2 = [0, 90]" "m_previousLoad s2 = 1000"
    "m_lastSampleTime s2 = 90"
    by (simp_all add: e2 f1)
  have t2: "m_lastSampleTime s2 \<le> 120" by (simp add: f2)
  from Discharge_records_load[OF i2 t2, of 500]
  obtain s3 where r3: "Discharge_record s2 500 120 = Inr s3"
    and e3: "s3 = s2\<lparr>m_load := m_load s2 @ [500], m_previousLoad := 500,
                       m_timeStamps := m_timeStamps s2 @ [120], m_lastSampleTime := 120\<rparr>"
    and i3: "load_history_inv s3"
    using f2(3) by auto
  have f3: "m_load s3 = [1000, 500]" "m_timeStamps s3 = [0, 90, 120]" "m_previousLoad s3 = 500"
    by (simp_all add: e3 f2)
  have x1: "\<exists>a. Discharge (CreateObject 0) 1000 60 = Inr (a, s1)" using d1 by (simp add: f1)
  have x2: "\<exists>a. Discharge s1 1000 90 = Inr (a, s2)" using d2 by (simp add: f1 f2)
  show ?thesis
    using i0 t0 r1 f1(1,2,3) i1 t1 x1 r2 f2(1,2,3) i2 t2 x2 r3 f3 i3 by blast
qed

subsection \<open>C7: asking twice at the same time\<close>



subsection \<open>C8: the supply voltage\<close>

text \<open>
  Claim C8, as amended. \<^verbatim>\<open>GetVoltage (i)\<close> returns \<open>V = E - R_internal * i\<close> of the spec's
  voltage curve, with \<open>it\<close> the stored drained capacity \<open>m_drainedCapacity\<close>. A recomputation
  that does not take the clamp branch stores \<open>alpha / 3600\<close> there (alpha being the value it
  memoises), so the supply voltage it computes is the curve at \<open>it = alpha / 3600\<close> and \<open>i\<close>
  the total current. A recomputation that takes the clamp branch leaves the drained
  capacity as it was, and the supply voltage it computes is the curve at that older value.
\<close>

theorem GetVoltage_formula:
  "GetVoltage s i = voltage_spec (m_eFull s) (m_eNom s) (m_eExp s) (m_qRated s) (m_qNom s) (m_qExp s)
                      (m_internalResistance s) (m_typCurrent s) (m_drainedCapacity s) i
   \<and> (\<forall>env s'. CalculateRemainingEnergy env s = Inr s' \<and> \<not> takesClampBranch env s \<longrightarrow>
         m_drainedCapacity s' = m_lastUpdateAlpha s' / 3600
         \<and> m_supplyVoltageV s' =
             voltage_spec (m_eFull s) (m_eNom s) (m_eExp s) (m_qRated s) (m_qNom s) (m_qExp s)
               (m_internalResistance s) (m_typCurrent s) (m_lastUpdateAlpha s' / 3600)
               (CalculateTotalCurrent env))
   \<and> (\<forall>env s'. CalculateRemainingEnergy env s = Inr s' \<and> takesClampBranch env s \<longrightarrow>
         m_drainedCapacity s' = m_drainedCapacity s
         \<and> m_supplyVoltageV s' =
             voltage_spec (m_eFull s) (m_eNom s) (m_eExp s) (m_qRated s) (m_qNom s) (m_qExp s)
               (m_internalResistance s) (m_typCurrent s) (m_drainedCapacity s)
               (CalculateTotalCurrent env))"
proof (intro conjI allI impI)
  show "GetVoltage s i = voltage_spec (m_eFull s) (m_eNom s) (m_eExp s) (m_qRated s) (m_qNom s) (m_qExp s)
                      (m_internalResistance s) (m_typCurrent s) (m_drainedCapacity s) i"
    by (rule GetVoltage_voltage_spec)
next
  fix env s'
  assume h: "CalculateRemainingEnergy env s = Inr s' \<and> \<not> takesClampBranch env s"
  then show "m_drainedCapacity s' = m_lastUpdateAlpha s' / 3600"
    using unclamped_step[of env s s'] by simp
  show "m_supplyVoltageV s' =
             voltage_spec (m_eFull s) (m_eNom s) (m_eExp s) (m_qRated s) (m_qNom s) (m_qExp s)
               (m_internalResistance s) (m_typCurrent s) (m_lastUpdateAlpha s' / 3600)
               (CalculateTotalCurrent env)"
    using h unclamped_step[of env s s'] by (simp add: GetVoltage_voltage_spec)
next
  fix env s'
  assume h: "CalculateRemainingEnergy env s = Inr s' \<and> takesClampBranch env s"
  then show "m_drainedCapacity s' = m_drainedCapacity s"
    using clamped_step[of env s s'] by simp
  show "m_supplyVoltageV s' =
             voltage_spec (m_eFull s) (m_eNom s) (m_eExp s) (m_qRated s) (m_qNom s) (m_qExp s)
               (m_internalResistance s) (m_typCurrent s) (m_drainedCapacity s)
               (CalculateTotalCurrent env)"
    using h clamped_step[of env s s'] by (simp add: GetVoltage_voltage_spec)
qed

text \<open>
  The first recomputation of scenario B does not clamp; the one of scenario E does.
\<close>

theorem GetVoltage_formula_witness:
  "\<not> isl (CalculateRemainingEnergy (running 60 (1 / 10)) (CreateObject 0))
   \<and> \<not> takesClampBranch (running 60 (1 / 10)) (CreateObject 0)
   \<and> m_drainedCapacity (projr (CalculateRemainingEnergy (running 60 (1 / 10)) (CreateObject 0)))
     = 100 * rv_A_spec 60 60 0 (637 / 1000) / 3600
   \<and> m_supplyVoltageV (projr (CalculateRemainingEnergy (running 60 (1 / 10)) (CreateObject 0)))
     = voltage_spec (405 / 100) (36 / 10) (36 / 10) (245 / 100) (11 / 10) (12 / 10) (83 / 1000) (233 / 100)
         (100 * rv_A_spec 60 60 0 (637 / 1000) / 3600) (1 / 10)
   \<and> \<not> isl (CalculateRemainingEnergy (running 60 (1 / 10))
               ((CreateObject 0)\<lparr>m_initialEnergyJ := 1, m_remainingEnergyJ := 1\<rparr>))
   \<and> takesClampBranch (running 60 (1 / 10)) ((CreateObject 0)\<lparr>m_initialEnergyJ := 1, m_remainingEnergyJ := 1\<rparr>)
   \<and> m_drainedCapacity
        (projr (CalculateRemainingEnergy (running 60 (1 / 10))
                  ((CreateObject 0)\<lparr>m_initialEnergyJ := 1, m_remainingEnergyJ := 1\<rparr>))) = 0
   \<and> m_supplyVoltageV
        (projr (CalculateRemainingEnergy (running 60 (1 / 10))
                  ((CreateObject 0)\<lparr>m_initialEnergyJ := 1, m_remainingEnergyJ := 1\<rparr>)))
     = voltage_spec (405 / 100) (36 / 10) (36 / 10) (245 / 100) (11 / 10) (12 / 10) (83 / 1000) (233 / 100)
         0 (1 / 10)"
proof -
  let ?b = "CreateObject 0"
  let ?c = "projr (CalculateRemainingEnergy (running 60 (1 / 10)) ?b)"
  let ?b1 = "(CreateObject 0)\<lparr>m_initialEnergyJ := 1, m_remainingEnergyJ := 1\<rparr>"
  let ?c1 = "projr (CalculateRemainingEnergy (running 60 (1 / 10)) ?b1)"
  have c: "CalculateRemainingEnergy (running 60 (1 / 10)) ?b = Inr ?c"
    by (simp add: scenario_recovery_calc)
  have a: "m_lastUpdateAlpha ?c = 100 * rv_A_spec 60 60 0 (637 / 1000)"
    by (simp add: scenario_recovery_calc)
  have p: "m_eFull ?b = 405 / 100" "m_eNom ?b = 36 / 10" "m_eExp ?b = 36 / 10" "m_qRated ?b = 245 / 100"
    "m_qNom ?b = 11 / 10" "m_qExp ?b = 12 / 10" "m_internalResistance ?b = 83 / 1000"
    "m_typCurrent ?b = 233 / 100"
    by (simp_all add: CreateObject_def)
  from GetVoltage_formula[of ?b 0] c scenario_recovery_unclamped
  have "m_drainedCapacity ?c = m_lastUpdateAlpha ?c / 3600
        \<and> m_supplyVoltageV ?c =
             voltage_spec (m_eFull ?b) (m_eNom ?b) (m_eExp ?b) (m_qRated ?b) (m_qNom ?b) (m_qExp ?b)
               (m_internalResistance ?b) (m_typCurrent ?b) (m_lastUpdateAlpha ?c / 3600)
               (CalculateTotalCurrent (running 60 (1 / 10)))"
    by blast
  then have u: "m_drainedCapacity ?c = 100 * rv_A_spec 60 60 0 (637 / 1000) / 3600"
    "m_supplyVoltageV ?c
     = voltage_spec (405 / 100) (36 / 10) (36 / 10) (245 / 100) (11 / 10) (12 / 10) (83 / 1000) (233 / 100)
         (100 * rv_A_spec 60 60 0 (637 / 1000) / 3600) (1 / 10)"
    unfolding a p by simp_all
  have x: "\<not> isl (CalculateRemainingEnergy (running 60 (1 / 10)) ?b)"
    by (simp add: scenario_recovery_calc)
  obtain k where c1: "CalculateRemainingEnergy (running 60 (1 / 10)) ?b1 = Inr k"
    and k: "k = ?c1"
    by (simp add: scenario_small_calc)
  have p1: "m_eFull ?b1 = 405 / 100" "m_eNom ?b1 = 36 / 10" "m_eExp ?b1 = 36 / 10" "m_qRated ?b1 = 245 / 100"
    "m_qNom ?b1 = 11 / 10" "m_qExp ?b1 = 12 / 10" "m_internalResistance ?b1 = 83 / 1000"
    "m_typCurrent ?b1 = 233 / 100" "m_drainedCapacity ?b1 = 0"
    by (simp_all add: CreateObject_def)
  from GetVoltage_formula[of ?b1 0] c1 scenario_small_clamped
  have "m_drainedCapacity k = m_drainedCapacity ?b1
        \<and> m_supplyVoltageV k =
             voltage_spec (m_eFull ?b1) (m_eNom ?b1) (m_eExp ?b1) (m_qRated ?b1) (m_qNom ?b1) (m_qExp ?b1)
               (m_internalResistance ?b1) (m_typCurrent ?b1) (m_drainedCapacity ?b1)
               (CalculateTotalCurrent (running 60 (1 / 10)))"
    by blast
  then have w: "m_drainedCapacity k = 0"
    "m_supplyVoltageV k
     = voltage_spec (405 / 100) (36 / 10) (36 / 10) (245 / 100) (11 / 10) (12 / 10) (83 / 1000) (233 / 100)
         0 (1 / 10)"
    unfolding p1 by simp_all
  have y: "\<not> isl (CalculateRemainingEnergy (running 60 (1 / 10)) ?b1)"
    by (simp add: c1)
  show ?thesis
    using x scenario_recovery_unclamped u y scenario_small_clamped w unfolding k by blast
qed

text \<open>
  Claim C8 as stated fails in scenario E: after the recomputation the drained capacity is
  not \<open>alpha / 3600\<close>, and neither the stored supply voltage nor \<^verbatim>\<open>GetVoltage (0.1)\<close> is the
  curve at \<open>it = alpha / 3600\<close>.
\<close>

theorem drained_capacity_counterexample:
  "\<not> isl (SetInitialEnergy (CreateObject 0) 1)
   \<and> \<not> isl (CalculateRemainingEnergy (running 60 (1 / 10)) (projr (SetInitialEnergy (CreateObject 0) 1)))
   \<and> m_drainedCapacity
        (projr (CalculateRemainingEnergy (running 60 (1 / 10)) (projr (SetInitialEnergy (CreateObject 0) 1))))
     \<noteq> m_lastUpdateAlpha
        (projr (CalculateRemainingEnergy (running 60 (1 / 10)) (projr (SetInitialEnergy (CreateObject 0) 1)))) / 3600
   \<and> m_supplyVoltageV
        (projr (CalculateRemainingEnergy (running 60 (1 / 10)) (projr (SetInitialEnergy (CreateObject 0) 1))))
     \<noteq> voltage_spec (405 / 100) (36 / 10) (36 / 10) (245 / 100) (11 / 10) (12 / 10) (83 / 1000) (233 / 100)
         (m_lastUpdateAlpha
            (projr (CalculateRemainingEnergy (running 60 (1 / 10)) (projr (SetInitialEnergy (CreateObject 0) 1))))
          / 3600)
         (1 / 10)
   \<and> GetVoltage
        (projr (CalculateRemainingEnergy (running 60 (1 / 10)) (projr (SetInitialEnergy (CreateObject 0) 1))))
        (1 / 10)
     \<noteq> voltage_spec (405 / 100) (36 / 10) (36 / 10) (245 / 100) (11 / 10) (12 / 10) (83 / 1000) (233 / 100)
         (m_lastUpdateAlpha
            (projr (CalculateRemainingEnergy (running 60 (1 / 10)) (projr (SetInitialEnergy (CreateObject 0) 1))))
          / 3600)
         (1 / 10)"
proof -
  define a1 where "a1 = 100 * rv_A_spec 60 60 0 (637 / 1000)"
  define c where "c = projr (CalculateRemainingEnergy (running 60 (1 / 10)) (projr (SetInitialEnergy (CreateObject 0) 1)))"
  have a: "100 \<le> a1" "a1 \<le> 2100" using scenario_recovery_alpha by (simp_all add: a1_def)
  have c': "c = (CreateObject 0)\<lparr>m_initialEnergyJ := 1, m_load := [100], m_previousLoad := 100,
            m_timeStamps := [0, 60], m_lastSampleTime := 60,
            m_remainingEnergyJ := 0,
            m_supplyVoltageV := GetVoltage (CreateObject 0) (1 / 10),
            m_lastUpdateAlpha := a1\<rparr>"
    unfolding c_def a1_def by (simp add: scenario_small_battery scenario_small_calc)
  have p: "m_eFull (CreateObject 0) = 405 / 100" "m_eNom (CreateObject 0) = 36 / 10"
    "m_eExp (CreateObject 0) = 36 / 10" "m_qRated (CreateObject 0) = 245 / 100"
    "m_qNom (CreateObject 0) = 11 / 10" "m_qExp (CreateObject 0) = 12 / 10"
    "m_internalResistance (CreateObject 0) = 83 / 1000" "m_typCurrent (CreateObject 0) = 233 / 100"
    by (simp_all add: CreateObject_def)
  have g0: "GetVoltage (CreateObject 0) (1 / 10)
        = voltage_spec (405 / 100) (36 / 10) (36 / 10) (245 / 100) (11 / 10) (12 / 10) (83 / 1000) (233 / 100) 0 (1 / 10)"
    unfolding GetVoltage_voltage_spec p by simp
  have gc: "GetVoltage c (1 / 10) = GetVoltage (CreateObject 0) (1 / 10)"
    by (rule GetVoltage_cong) (simp_all add: c')
  have less: "voltage_spec (405 / 100) (36 / 10) (36 / 10) (245 / 100) (11 / 10) (12 / 10) (83 / 1000) (233 / 100) (a1 / 3600) (1 / 10)
      < voltage_spec (405 / 100) (36 / 10) (36 / 10) (245 / 100) (11 / 10) (12 / 10) (83 / 1000) (233 / 100) 0 (1 / 10)"
    using a by (intro voltage_spec_default_less) simp_all
  have f: "m_drainedCapacity c = 0" "m_lastUpdateAlpha c = a1"
    "m_supplyVoltageV c = GetVoltage (CreateObject 0) (1 / 10)"
    by (simp_all add: c')
  have x1: "\<not> isl (SetInitialEnergy (CreateObject 0) 1)" by (simp add: scenario_small_battery)
  have x2: "\<not> isl (CalculateRemainingEnergy (running 60 (1 / 10)) (projr (SetInitialEnergy (CreateObject 0) 1)))"
    by (simp add: scenario_small_battery scenario_small_calc)
  have x3: "m_drainedCapacity c \<noteq> m_lastUpdateAlpha c / 3600" using a by (simp add: f)
  have x4: "m_supplyVoltageV c
     \<noteq> voltage_spec (405 / 100) (36 / 10) (36 / 10) (245 / 100) (11 / 10) (12 / 10) (83 / 1000) (233 / 100)
         (m_lastUpdateAlpha c / 3600) (1 / 10)"
    unfolding f g0 using less by simp
  have x5: "GetVoltage c (1 / 10)
     \<noteq> voltage_spec (405 / 100) (36 / 10) (36 / 10) (245 / 100) (11 / 10) (12 / 10) (83 / 1000) (233 / 100)
         (m_lastUpdateAlpha c / 3600) (1 / 10)"
    unfolding gc f g0 using less by simp
  show ?thesis using x1 x2 x3 x4 x5 unfolding c_def by blast
qed

subsection \<open>C9: updates after the clock has finished\<close>

text \<open>
  Claim C9. When the simulation clock has finished, \<^verbatim>\<open>UpdateEnergySource\<close> returns at once
  and the object is unchanged: remaining energy, supply voltage, last update time, load
  history, memoised alpha, drained capacity and the pending event are what they were, and
  nothing is scheduled. \<^verbatim>\<open>GetRemainingEnergy\<close> then returns the stored energy.
\<close>

theorem UpdateEnergySource_after_finish:
  assumes "sim_IsFinished env"
  shows "UpdateEnergySource env s = Inr s \<and> GetRemainingEnergy env s = Inr (m_remainingEnergyJ s, s)"
  using assms by (simp add: UpdateEnergySource_def GetRemainingEnergy_def)

text \<open>
  A fresh battery queried after the clock has stopped at 4200 s.
\<close>

theorem UpdateEnergySource_after_finish_witness:
  "sim_IsFinished (stopped 4200 1)
   \<and> UpdateEnergySource (stopped 4200 1) (CreateObject 0) = Inr (CreateObject 0)
   \<and> GetRemainingEnergy (stopped 4200 1) (CreateObject 0) = Inr (31752, CreateObject 0)"
proof -
  have f: "sim_IsFinished (stopped 4200 1)" by (simp add: stopped_def)
  show ?thesis using UpdateEnergySource_after_finish[OF f, of "CreateObject 0"] f by simp
qed

subsection \<open>C10: the clamp branch and the drained capacity\<close>

text \<open>
  Claim C10. A recomputation that takes the clamp branch sets the remaining energy to 0,
  leaves \<open>m_drainedCapacity\<close> as it was, still sets \<open>m_lastUpdateAlpha\<close> to the new alpha, and
  computes the supply voltage from the drained capacity of before. Over any run of
  recomputations that all take the clamp branch, the drained capacity is still the one
  before the first of them, and the supply voltage after the last is \<^verbatim>\<open>GetVoltage\<close> on that
  stale value, at the last total current.
\<close>

theorem clamp_keeps_drained_capacity:
  "(\<forall>s'. CalculateRemainingEnergy env s = Inr s' \<and> takesClampBranch env s \<longrightarrow>
        m_remainingEnergyJ s' = 0
        \<and> m_drainedCapacity s' = m_drainedCapacity s
        \<and> (\<exists>calculatedAlpha s1.
              Discharge s (CalculateTotalCurrent env * 1000) (sim_Now env) = Inr (calculatedAlpha, s1)
              \<and> m_lastUpdateAlpha s' = calculatedAlpha)
        \<and> m_supplyVoltageV s' = GetVoltage s (CalculateTotalCurrent env))
   \<and> (\<forall>envs s'. clampedThroughout (env # envs) s \<and> CalculateRemainingEnergy_seq (env # envs) s = Inr s' \<longrightarrow>
        m_remainingEnergyJ s' = 0
        \<and> m_drainedCapacity s' = m_drainedCapacity s
        \<and> m_supplyVoltageV s' = GetVoltage s (CalculateTotalCurrent (last (env # envs))))"
proof (intro conjI allI impI)
  fix s'
  assume h: "CalculateRemainingEnergy env s = Inr s' \<and> takesClampBranch env s"
  then have c: "CalculateRemainingEnergy env s = Inr s'" and b: "takesClampBranch env s" by simp_all
  note r = clamped_step[OF c b]
  show "m_remainingEnergyJ s' = 0" using r by simp
  show "m_drainedCapacity s' = m_drainedCapacity s" using r by simp
  show "\<exists>calculatedAlpha s1.
              Discharge s (CalculateTotalCurrent env * 1000) (sim_Now env) = Inr (calculatedAlpha, s1)
              \<and> m_lastUpdateAlpha s' = calculatedAlpha"
    using r by simp
  show "m_supplyVoltageV s' = GetVoltage s (CalculateTotalCurrent env)" using r by simp
next
  fix envs s'
  assume h: "clampedThroughout (env # envs) s \<and> CalculateRemainingEnergy_seq (env # envs) s = Inr s'"
  then have c: "clampedThroughout (env # envs) s" and q: "CalculateRemainingEnergy_seq (env # envs) s = Inr s'"
    by simp_all
  note r = clamped_run[OF c q]
  show "m_remainingEnergyJ s' = 0" using r by simp
  show "m_drainedCapacity s' = m_drainedCapacity s" using r by simp
  show "m_supplyVoltageV s' = GetVoltage s (CalculateTotalCurrent (last (env # envs)))" using r by simp
qed

text \<open>
  Scenario A with recomputations at 600 s and at 1200 s: the drained capacity stays 0 and
  the supply voltage is the one of an undrained cell at 1 A.
\<close>

theorem clamp_keeps_drained_capacity_witness:
  "clampedThroughout [running 600 1, running 1200 1] (CreateObject 0)
   \<and> \<not> isl (CalculateRemainingEnergy_seq [running 600 1, running 1200 1] (CreateObject 0))
   \<and> m_remainingEnergyJ (projr (CalculateRemainingEnergy_seq [running 600 1, running 1200 1] (CreateObject 0))) = 0
   \<and> m_drainedCapacity (projr (CalculateRemainingEnergy_seq [running 600 1, running 1200 1] (CreateObject 0))) = 0
   \<and> m_supplyVoltageV (projr (CalculateRemainingEnergy_seq [running 600 1, running 1200 1] (CreateObject 0)))
     = 416039 / 100000"
proof -
  let ?b = "CreateObject 0"
  let ?es = "[running 600 1, running 1200 1]"
  obtain cA where c1: "CalculateRemainingEnergy (running 600 1) ?b = Inr cA"
    and cA: "cA = projr (CalculateRemainingEnergy (running 600 1) ?b)"
    by (simp add: scenario_clamp_calc)
  obtain s2 where c2: "CalculateRemainingEnergy (running 1200 1) cA = Inr s2"
    using scenario_clamp_calc_second(2) unfolding cA[symmetric]
    by (cases "CalculateRemainingEnergy (running 1200 1) cA") auto
  have q: "CalculateRemainingEnergy_seq ?es ?b = Inr s2" by (simp add: c1 c2)
  have k2: "takesClampBranch (running 1200 1) cA"
    using scenario_clamp_calc_second(1) unfolding cA[symmetric] .
  have k: "clampedThroughout ?es ?b"
    using scenario_clamp_first k2 by (simp add: c1 c2)
  from clamp_keeps_drained_capacity[of "running 600 1" ?b] k q
  have "m_remainingEnergyJ s2 = 0 \<and> m_drainedCapacity s2 = m_drainedCapacity ?b
        \<and> m_supplyVoltageV s2 = GetVoltage ?b (CalculateTotalCurrent (last ?es))"
    by blast
  then have "m_remainingEnergyJ s2 = 0" "m_drainedCapacity s2 = 0" "m_supplyVoltageV s2 = 416039 / 100000"
    by (simp_all add: CreateObject_voltage)
  then show ?thesis using k q by simp
qed

end
